theory Spec2Isabelle
  imports Complex_Main
begin

section \<open>Data model of the App component\<close>

text \<open>
  The component keeps its state in React \<open>useState\<close> cells. Every cell is one field of
  the record \<open>State\<close>; a handler is a function from the state in which it is invoked to
  the state after its updates have been applied. Values supplied by the browser or by
  the external services (the files read, the canvas, the outcome of a generation
  request, the outcome of the album composer) are parameters of the handlers.
\<close>

definition MAX_MAIN_IMAGES :: int where
  "MAX_MAIN_IMAGES = 10"

definition MAX_INSPIRATION_IMAGES :: int where
  "MAX_INSPIRATION_IMAGES = 5"

datatype ImageStatus = Pending | Done | Error

record GeneratedImage =
  status :: ImageStatus
  url :: "string option"
  error :: "string option"

datatype AppState = idle | photos_uploaded | generating | results_shown

datatype ImageType = main | inspiration

record CropQueueItem =
  dataUrl :: string
  type :: ImageType

text \<open>
  The crop rectangles of react-image-crop: a unit and four numbers. The handlers only
  test whether a completed crop is present; the rasterisation that reads the numbers is
  done by the canvas, whose result is a parameter of \<open>handleCropConfirm\<close>.
\<close>

datatype CropUnit = px | percent

datatype Crop = Crop CropUnit real real real real

datatype PixelCrop = PixelCrop real real real real

text \<open>
  A thrown value: an instance of \<open>Error\<close> with its message, or any other value.
  A settled promise is a sum: \<open>Inl\<close> a rejection, \<open>Inr\<close> a fulfilment.
\<close>

datatype JsError = ErrorObj string | NonError string

type_synonym 'a promise = "JsError + 'a"

text \<open>
  The slot array is a JavaScript array: an element may be a hole (\<open>None\<close>), which
  appears when an index at or beyond the length is assigned.
\<close>

record State =
  uploadedImages :: "string list"
  inspirationImages :: "string list"
  userPrompt :: string
  generatedImages :: "GeneratedImage option list"
  isDownloading :: bool
  appState :: AppState
  generationCount :: nat
  cropQueue :: "CropQueueItem list"
  crop :: "Crop option"
  completedCrop :: "PixelCrop option"
  pastedImages :: "string list"
  isPasteModalOpen :: bool

definition initialState :: State where
  "initialState =
     \<lparr>uploadedImages = [], inspirationImages = [], userPrompt = [],
      generatedImages = [], isDownloading = False, appState = idle,
      generationCount = 4, cropQueue = [], crop = None, completedCrop = None,
      pastedImages = [], isPasteModalOpen = False\<rparr>"

section \<open>JavaScript arrays and promises\<close>

text \<open>\<open>xs.slice(0, e)\<close>: a negative end counts from the end of the array.\<close>

definition js_slice0 :: "'a list \<Rightarrow> int \<Rightarrow> 'a list" where
  "js_slice0 xs e = take (nat (if e < 0 then int (length xs) + e else e)) xs"

text \<open>\<open>xs[i] = v\<close> on a copy: an index at or beyond the length extends the array with holes.\<close>

definition js_set :: "'a option list \<Rightarrow> nat \<Rightarrow> 'a \<Rightarrow> 'a option list" where
  "js_set xs i v =
     (if i < length xs then xs[i := Some v]
      else xs @ replicate (i - length xs) None @ [Some v])"

text \<open>\<open>xs[i]\<close>: \<open>undefined\<close> out of range and at a hole.\<close>

definition js_get :: "'a option list \<Rightarrow> nat \<Rightarrow> 'a option" where
  "js_get xs i = (if i < length xs then xs ! i else None)"

text \<open>\<open>xs.filter((_, i) => i !== index)\<close>\<close>

definition filter_index :: "'a list \<Rightarrow> nat \<Rightarrow> 'a list" where
  "filter_index xs index = map fst (filter (\<lambda>(_, i). i \<noteq> index) (zip xs [0..<length xs]))"

definition then_p :: "('a \<Rightarrow> 'b) \<Rightarrow> 'a promise \<Rightarrow> 'b promise" where
  "then_p f p = (case p of Inl e \<Rightarrow> Inl e | Inr v \<Rightarrow> Inr (f v))"

definition catch_p :: "(JsError \<Rightarrow> 'a) \<Rightarrow> 'a promise \<Rightarrow> 'a promise" where
  "catch_p h p = (case p of Inl e \<Rightarrow> Inr (h e) | Inr v \<Rightarrow> Inr v)"

text \<open>\<open>Promise.all\<close> of settled promises: the values, or a rejection if one rejected.\<close>

fun promise_all :: "'a promise list \<Rightarrow> 'a list promise" where
  "promise_all [] = Inr []"
| "promise_all (p # ps) =
     (case p of
        Inl e \<Rightarrow> Inl e
      | Inr v \<Rightarrow> (case promise_all ps of Inl e \<Rightarrow> Inl e | Inr vs \<Rightarrow> Inr (v # vs)))"

section \<open>Image intake\<close>

definition maxImages :: "ImageType \<Rightarrow> int" where
  "maxImages ty = (if ty = main then MAX_MAIN_IMAGES else MAX_INSPIRATION_IMAGES)"

definition currentCount :: "ImageType \<Rightarrow> State \<Rightarrow> int" where
  "currentCount ty s =
     (if ty = main then int (length (uploadedImages s)) else int (length (inspirationImages s)))"

text \<open>
  The paste listener: ignored while a text control has the focus or when the clipboard
  holds no image file; otherwise the files are read and, if every read succeeds, the
  buffer is filled and the modal opened.
\<close>

definition handlePaste :: "bool \<Rightarrow> string promise list \<Rightarrow> State \<Rightarrow> State" where
  "handlePaste focusInTextControl reads s =
     (if focusInTextControl then s
      else if length reads > 0 then
        (case promise_all reads of
           Inl err \<Rightarrow> s
         | Inr dataUrls \<Rightarrow> s\<lparr>pastedImages := dataUrls, isPasteModalOpen := True\<rparr>)
      else s)"

definition handleAddPastedImages :: "ImageType \<Rightarrow> State \<Rightarrow> State" where
  "handleAddPastedImages ty s =
     (let availableSlots = maxImages ty - currentCount ty s in
      if availableSlots \<le> 0 then s
      else
        let imagesToAdd = js_slice0 (pastedImages s) availableSlots;
            newQueueItems = map (\<lambda>d. \<lparr>dataUrl = d, type = ty\<rparr>) imagesToAdd
        in s\<lparr>cropQueue := cropQueue s @ newQueueItems,
             isPasteModalOpen := False,
             pastedImages := []\<rparr>)"

definition handleCancelPaste :: "State \<Rightarrow> State" where
  "handleCancelPaste s = s\<lparr>isPasteModalOpen := False, pastedImages := []\<rparr>"

text \<open>
  A file upload. The synchronous part truncates the selected files with the counts of
  the state in which the handler runs; \<open>readAsDataURL\<close> is what the FileReader yields
  for a file (the promise of a read resolves on \<open>loadend\<close> in every case). When all
  reads have finished the items are appended to the queue.
\<close>

definition uploadItems :: "('f \<Rightarrow> string) \<Rightarrow> 'f list \<Rightarrow> ImageType \<Rightarrow> State \<Rightarrow> CropQueueItem list" where
  "uploadItems readAsDataURL fileList ty s =
     (let files = js_slice0 fileList (maxImages ty - currentCount ty s)
      in map (\<lambda>file. \<lparr>dataUrl = readAsDataURL file, type = ty\<rparr>) files)"

definition handleImageUpload ::
  "('f \<Rightarrow> string) \<Rightarrow> 'f list option \<Rightarrow> ImageType \<Rightarrow> State \<Rightarrow> State" where
  "handleImageUpload readAsDataURL targetFiles ty s =
     (case targetFiles of
        None \<Rightarrow> s
      | Some fileList \<Rightarrow>
          s\<lparr>cropQueue := cropQueue s @ uploadItems readAsDataURL fileList ty s\<rparr>)"

definition removeMainImage :: "nat \<Rightarrow> State \<Rightarrow> State" where
  "removeMainImage index s = s\<lparr>uploadedImages := filter_index (uploadedImages s) index\<rparr>"

definition removeInspirationImage :: "nat \<Rightarrow> State \<Rightarrow> State" where
  "removeInspirationImage index s =
     s\<lparr>inspirationImages := filter_index (inspirationImages s) index\<rparr>"

section \<open>Crop pipeline\<close>

text \<open>
  What the browser supplies to a crop confirmation: whether the image element is
  mounted (\<open>imgRef.current\<close>), whether the canvas yields a 2d context, and the data URL
  the canvas encodes for the completed crop.
\<close>

record CropEnv =
  imagePresent :: bool
  has2dContext :: bool
  croppedDataUrl :: string

definition handleCropConfirm :: "CropEnv \<Rightarrow> State \<Rightarrow> State promise" where
  "handleCropConfirm env s =
     (if imagePresent env = False \<or> completedCrop s = None \<or> length (cropQueue s) = 0
      then Inr s
      else if has2dContext env = False then Inl (ErrorObj ''No 2d context'')
      else
        (case cropQueue s of
           [] \<Rightarrow> Inr s
         | currentItem # rest \<Rightarrow>
             Inr ((if type currentItem = main
                   then s\<lparr>uploadedImages := uploadedImages s @ [croppedDataUrl env]\<rparr>
                   else s\<lparr>inspirationImages := inspirationImages s @ [croppedDataUrl env]\<rparr>)
                  \<lparr>appState := photos_uploaded,
                   cropQueue := drop 1 (cropQueue s),
                   crop := None,
                   completedCrop := None\<rparr>)))"

definition handleCropCancel :: "State \<Rightarrow> State" where
  "handleCropCancel s =
     s\<lparr>cropQueue := drop 1 (cropQueue s), crop := None, completedCrop := None\<rparr>"

text \<open>The \<open>onComplete\<close> callback of the crop widget.\<close>

definition setCompletedCrop :: "PixelCrop \<Rightarrow> State \<Rightarrow> State" where
  "setCompletedCrop c s = s\<lparr>completedCrop := Some c\<rparr>"

section \<open>Generation orchestrator\<close>

text \<open>
  The arguments of one call of \<open>generateVibeBasedImage\<close>: the subject photos, the vibe
  photos and the instructions of the state in which the handler was invoked.
\<close>

type_synonym Request = "string list \<times> string list \<times> string"

definition requestOf :: "State \<Rightarrow> Request" where
  "requestOf s = (uploadedImages s, inspirationImages s, userPrompt s)"

definition pendingSlot :: GeneratedImage where
  "pendingSlot = \<lparr>status = Pending, url = None, error = None\<rparr>"

definition doneSlot :: "string \<Rightarrow> GeneratedImage" where
  "doneSlot resultUrl = \<lparr>status = Done, url = Some resultUrl, error = None\<rparr>"

definition errorMessage :: "JsError \<Rightarrow> string" where
  "errorMessage err =
     (case err of ErrorObj message \<Rightarrow> message | NonError _ \<Rightarrow> ''An unknown error occurred.'')"

definition errorSlot :: "JsError \<Rightarrow> GeneratedImage" where
  "errorSlot err = \<lparr>status = Error, url = None, error = Some (errorMessage err)\<rparr>"

text \<open>
  One element of \<open>generationPromises\<close>: the call's promise with its \<open>then\<close> and
  \<open>catch\<close> continuations.
\<close>

definition generationPromise :: "string promise \<Rightarrow> GeneratedImage promise" where
  "generationPromise outcome = catch_p errorSlot (then_p doneSlot outcome)"

text \<open>The functional update \<open>prev => { newImages[i] = result }\<close>.\<close>

definition setSlot :: "nat \<Rightarrow> GeneratedImage \<Rightarrow> State \<Rightarrow> State" where
  "setSlot i result s = s\<lparr>generatedImages := js_set (generatedImages s) i result\<rparr>"

text \<open>The continuation attached to promise \<open>i\<close> in the loop: it runs on fulfilment only.\<close>

definition applyOutcome :: "nat \<Rightarrow> GeneratedImage promise \<Rightarrow> State \<Rightarrow> State" where
  "applyOutcome i p s = (case p of Inl _ \<Rightarrow> s | Inr result \<Rightarrow> setSlot i result s)"

definition generateGuard :: "State \<Rightarrow> bool" where
  "generateGuard s = (length (uploadedImages s) = 0 \<or> length (inspirationImages s) = 0)"

text \<open>
  What a run of an asynchronous handler does, as it can be observed: the calls of
  \<open>generateVibeBasedImage\<close> it issues, the state once its synchronous updates are
  applied and the requests are in flight, and the state with which it completes
  (\<open>Inl\<close> when it ends in an unhandled rejection).
\<close>

record HandlerRun =
  issued :: "Request list"
  whilePending :: State
  completed :: "State promise"

text \<open>
  \<open>handleGenerateClickRun outcome order s\<close>: \<open>outcome i\<close> is how request \<open>i\<close> settles and
  \<open>order\<close> lists the request indices in the order in which they settle. The run
  completes with \<open>Inl\<close> when the awaited \<open>Promise.all\<close> rejects, which would leave the
  handler with an unhandled rejection before the last state update.
\<close>

definition handleGenerateClickRun ::
  "(nat \<Rightarrow> string promise) \<Rightarrow> nat list \<Rightarrow> State \<Rightarrow> HandlerRun" where
  "handleGenerateClickRun outcome order s =
     (if generateGuard s then \<lparr>issued = [], whilePending = s, completed = Inr s\<rparr>
      else
        let initialImages = replicate (generationCount s) (Some pendingSlot);
            begun = s\<lparr>appState := generating, generatedImages := initialImages\<rparr>;
            calls = map (\<lambda>index. requestOf s) [0..<generationCount s];
            generationPromises = (\<lambda>i. generationPromise (outcome i));
            settled = fold (\<lambda>i. applyOutcome i (generationPromises i)) order begun
        in \<lparr>issued = calls,
            whilePending = begun,
            completed =
              (case promise_all (map generationPromises [0..<generationCount s]) of
                 Inl err \<Rightarrow> Inl err
               | Inr _ \<Rightarrow> Inr (settled\<lparr>appState := results_shown\<rparr>))\<rparr>)"

text \<open>The state with which \<open>handleGenerateClick\<close> completes.\<close>

definition handleGenerateClick ::
  "(nat \<Rightarrow> string promise) \<Rightarrow> nat list \<Rightarrow> State \<Rightarrow> State promise" where
  "handleGenerateClick outcome order s = completed (handleGenerateClickRun outcome order s)"

definition slotPending :: "State \<Rightarrow> nat \<Rightarrow> bool" where
  "slotPending s index =
     (case js_get (generatedImages s) index of None \<Rightarrow> False | Some g \<Rightarrow> status g = Pending)"

definition regenerateGuard :: "nat \<Rightarrow> State \<Rightarrow> bool" where
  "regenerateGuard index s =
     (length (uploadedImages s) = 0 \<or> length (inspirationImages s) = 0 \<or> slotPending s index)"

text \<open>The \<open>try\<close>/\<open>catch\<close> around the awaited call: both branches update the slot.\<close>

definition regenerateSettle :: "nat \<Rightarrow> string promise \<Rightarrow> State \<Rightarrow> State promise" where
  "regenerateSettle index outcome s =
     (case outcome of
        Inr resultUrl \<Rightarrow> Inr (setSlot index (doneSlot resultUrl) s)
      | Inl err \<Rightarrow> Inr (setSlot index (errorSlot err) s))"

text \<open>
  \<open>handleRegenerateSlotRun outcome index s\<close>: \<open>outcome\<close> is how the one request
  settles.
\<close>

definition handleRegenerateSlotRun :: "string promise \<Rightarrow> nat \<Rightarrow> State \<Rightarrow> HandlerRun" where
  "handleRegenerateSlotRun outcome index s =
     (if regenerateGuard index s then \<lparr>issued = [], whilePending = s, completed = Inr s\<rparr>
      else
        let begun = setSlot index pendingSlot s
        in \<lparr>issued = [requestOf s],
            whilePending = begun,
            completed = regenerateSettle index outcome begun\<rparr>)"

text \<open>The state with which \<open>handleRegenerateSlot\<close> completes.\<close>

definition handleRegenerateSlot :: "string promise \<Rightarrow> nat \<Rightarrow> State \<Rightarrow> State promise" where
  "handleRegenerateSlot outcome index s = completed (handleRegenerateSlotRun outcome index s)"

definition handleReset :: "State \<Rightarrow> State" where
  "handleReset s =
     s\<lparr>uploadedImages := [], inspirationImages := [], generatedImages := [],
       userPrompt := [], appState := idle\<rparr>"

section \<open>Album download\<close>

text \<open>Decimal rendering of an index inside the template string.\<close>

definition digit_char :: "nat \<Rightarrow> char" where
  "digit_char d = char_of (48 + d)"

fun string_of_nat :: "nat \<Rightarrow> string" where
  "string_of_nat n =
     (if n < 10 then [digit_char n] else string_of_nat (n div 10) @ [digit_char (n mod 10)])"

declare string_of_nat.simps [simp del]

definition resultLabel :: "nat \<Rightarrow> string" where
  "resultLabel index = ''Result '' @ string_of_nat (index + 1)"

text \<open>
  \<open>imageData[key] = value\<close> on an object with string keys: an existing key keeps its
  place and takes the new value, a new key is added last.
\<close>

fun record_set :: "string \<Rightarrow> string \<Rightarrow> (string \<times> string) list \<Rightarrow> (string \<times> string) list" where
  "record_set k v [] = [(k, v)]"
| "record_set k v (p # ps) = (if fst p = k then (k, v) # ps else p # record_set k v ps)"

text \<open>The truthiness test \<open>image.url\<close>: defined and not the empty string.\<close>

definition truthy :: "string option \<Rightarrow> bool" where
  "truthy u = (case u of None \<Rightarrow> False | Some str \<Rightarrow> str \<noteq> [])"

definition collectStep ::
  "nat \<times> GeneratedImage option \<Rightarrow> (string \<times> string) list \<Rightarrow> (string \<times> string) list" where
  "collectStep entry imageData =
     (case snd entry of
        None \<Rightarrow> imageData
      | Some img \<Rightarrow>
          if status img = Done \<and> truthy (url img)
          then record_set (resultLabel (fst entry)) (the (url img)) imageData
          else imageData)"

text \<open>The \<open>forEach\<close> over the slot array, which passes over holes.\<close>

definition collectImageData :: "GeneratedImage option list \<Rightarrow> (string \<times> string) list" where
  "collectImageData images = fold collectStep (enumerate 0 images) []"

datatype Effect =
    Alert string
  | ComposeCall "(string \<times> string) list"
  | Download string string
  | ConsoleError string

definition noImagesNotice :: string where
  "noImagesNotice = ''No images have been successfully generated to create an album.''"

definition albumErrorNotice :: string where
  "albumErrorNotice = ''Sorry, there was an error creating your album. Please try again.''"

text \<open>
  The body of the \<open>try\<close> block with the effects it performs; \<open>createAlbumPage\<close> is the
  outcome of the external composer for the data passed to it.
\<close>

definition albumTry ::
  "((string \<times> string) list \<Rightarrow> string promise) \<Rightarrow> GeneratedImage option list
     \<Rightarrow> Effect list \<times> unit promise" where
  "albumTry createAlbumPage images =
     (let imageData = collectImageData images in
      if length imageData = 0 then ([Alert noImagesNotice], Inr ())
      else
        (case createAlbumPage imageData of
           Inl err \<Rightarrow> ([ComposeCall imageData], Inl err)
         | Inr albumDataUrl \<Rightarrow>
             ([ComposeCall imageData, Download albumDataUrl ''perfect-shot-album.jpg''], Inr ())))"

text \<open>
  \<open>handleDownloadAlbum\<close> yields the effects performed, the state while the handler is
  in flight and the state once its \<open>finally\<close> block has run.
\<close>

definition handleDownloadAlbum ::
  "((string \<times> string) list \<Rightarrow> string promise) \<Rightarrow> State \<Rightarrow> Effect list \<times> State \<times> State" where
  "handleDownloadAlbum createAlbumPage s =
     (let inFlight = s\<lparr>isDownloading := True\<rparr>;
          attempt = albumTry createAlbumPage (generatedImages s);
          effects =
            (case snd attempt of
               Inl err \<Rightarrow>
                 fst attempt
                   @ [ConsoleError ''Failed to create or download album:'', Alert albumErrorNotice]
             | Inr _ \<Rightarrow> fst attempt)
      in (effects, inFlight, inFlight\<lparr>isDownloading := False\<rparr>))"

text \<open>
  The album button of the results view: it is rendered in the state results-shown and
  carries \<open>disabled={isDownloading}\<close>; a click on a button that is absent or disabled
  invokes nothing.
\<close>

definition albumButtonEnabled :: "State \<Rightarrow> bool" where
  "albumButtonEnabled s = (appState s = results_shown \<and> isDownloading s = False)"

definition clickDownloadAlbum ::
  "((string \<times> string) list \<Rightarrow> string promise) \<Rightarrow> State
     \<Rightarrow> (Effect list \<times> State \<times> State) option" where
  "clickDownloadAlbum createAlbumPage s =
     (if albumButtonEnabled s then Some (handleDownloadAlbum createAlbumPage s) else None)"

section \<open>Sequences of user actions\<close>

text \<open>
  The intake and crop actions a user can take, in the order taken. A file is identified
  with the data URL its read yields; a crop confirmation whose canvas throws leaves the
  state as it was.
\<close>

datatype Op =
    Upload ImageType "string list"
  | Paste "string list"
  | PasteAdd ImageType
  | CropComplete PixelCrop
  | CropConfirm CropEnv
  | CropSkip
  | RemoveMain nat
  | RemoveInspiration nat

fun step :: "Op \<Rightarrow> State \<Rightarrow> State" where
  "step (Upload ty files) s = handleImageUpload (\<lambda>file. file) (Some files) ty s"
| "step (Paste dataUrls) s = handlePaste False (map Inr dataUrls) s"
| "step (PasteAdd ty) s = handleAddPastedImages ty s"
| "step (CropComplete c) s = setCompletedCrop c s"
| "step (CropConfirm env) s = (case handleCropConfirm env s of Inl _ \<Rightarrow> s | Inr s' \<Rightarrow> s')"
| "step CropSkip s = handleCropCancel s"
| "step (RemoveMain index) s = removeMainImage index s"
| "step (RemoveInspiration index) s = removeInspirationImage index s"

definition run :: "Op list \<Rightarrow> State \<Rightarrow> State" where
  "run ops s = fold step ops s"

section \<open>Vocabulary of the properties\<close>

definition photoSet :: "ImageType \<Rightarrow> State \<Rightarrow> string list" where
  "photoSet ty s = (if ty = main then uploadedImages s else inspirationImages s)"

text \<open>The slot a settled request leaves behind: done with the result, or error with the message.\<close>

definition settledSlot :: "string promise \<Rightarrow> GeneratedImage" where
  "settledSlot outcome =
     (case outcome of Inl err \<Rightarrow> errorSlot err | Inr resultUrl \<Rightarrow> doneSlot resultUrl)"

definition slotSettled :: "GeneratedImage option \<Rightarrow> bool" where
  "slotSettled slot =
     (case slot of None \<Rightarrow> False | Some g \<Rightarrow> status g = Done \<or> status g = Error)"

definition slotDone :: "GeneratedImage option \<Rightarrow> bool" where
  "slotDone slot = (case slot of None \<Rightarrow> False | Some g \<Rightarrow> status g = Done)"

definition hasImage :: "GeneratedImage option \<Rightarrow> bool" where
  "hasImage slot =
     (case slot of None \<Rightarrow> False | Some g \<Rightarrow> status g = Done \<and> truthy (url g))"

definition slotUrl :: "GeneratedImage option \<Rightarrow> string" where
  "slotUrl slot =
     (case slot of None \<Rightarrow> [] | Some g \<Rightarrow> (case url g of None \<Rightarrow> [] | Some u \<Rightarrow> u))"

text \<open>One labelled entry per done slot, in index order.\<close>

definition albumEntries :: "GeneratedImage option list \<Rightarrow> (string \<times> string) list" where
  "albumEntries images =
     map (\<lambda>i. (''Result '' @ string_of_nat (i + 1), slotUrl (images ! i)))
       (filter (\<lambda>i. slotDone (images ! i)) [0..<length images])"

fun doneEntries :: "nat \<Rightarrow> GeneratedImage option list \<Rightarrow> (string \<times> string) list" where
  "doneEntries n [] = []"
| "doneEntries n (slot # slots) =
     (if hasImage slot then [(resultLabel n, slotUrl slot)] else []) @ doneEntries (Suc n) slots"

definition nat_of_digits :: "string \<Rightarrow> nat" where
  "nat_of_digits str = foldl (\<lambda>acc c. 10 * acc + (of_char c - 48)) 0 str"

section \<open>Example states\<close>

definition exampleReady :: State where
  "exampleReady =
     initialState\<lparr>uploadedImages := [''subject-1'', ''subject-2''],
                  inspirationImages := [''vibe-1''],
                  appState := photos_uploaded,
                  generationCount := 3\<rparr>"

definition exampleOutcome :: "nat \<Rightarrow> string promise" where
  "exampleOutcome i =
     (if i = 1 then Inl (ErrorObj ''quota exceeded'') else Inr ''data:image/png;base64,AAAA'')"

definition exampleGenerating :: State where
  "exampleGenerating =
     exampleReady\<lparr>appState := generating,
                   generatedImages := replicate 3 (Some pendingSlot)\<rparr>"

definition exampleResults :: State where
  "exampleResults =
     exampleReady\<lparr>appState := results_shown,
                   generatedImages :=
                     [Some (doneSlot ''img-a''), Some (errorSlot (NonError ''timeout'')),
                      Some (doneSlot ''img-c'')]\<rparr>"

definition exampleComposer :: "(string \<times> string) list \<Rightarrow> string promise" where
  "exampleComposer imageData = Inr (concat (map snd imageData))"

definition exampleNearlyFull :: State where
  "exampleNearlyFull =
     initialState\<lparr>uploadedImages := replicate 8 ''photo'',
                  pastedImages := [''p1'', ''p2'', ''p3''],
                  isPasteModalOpen := True,
                  appState := photos_uploaded\<rparr>"

definition exampleFull :: State where
  "exampleFull =
     initialState\<lparr>uploadedImages := replicate 10 ''photo'',
                  pastedImages := [''p1''],
                  isPasteModalOpen := True,
                  appState := photos_uploaded\<rparr>"

definition exampleCropping :: State where
  "exampleCropping =
     initialState\<lparr>inspirationImages := [''vibe-1''],
                  cropQueue := [\<lparr>dataUrl = ''raw-1'', type = main\<rparr>,
                                \<lparr>dataUrl = ''raw-2'', type = inspiration\<rparr>],
                  crop := Some (Crop percent 5 5 90 90),
                  completedCrop := Some (PixelCrop 10 10 180 180)\<rparr>"

definition exampleEnv :: CropEnv where
  "exampleEnv = \<lparr>imagePresent = True, has2dContext = True, croppedDataUrl = ''cropped''\<rparr>"

definition overfillOps :: "ImageType \<Rightarrow> nat \<Rightarrow> Op list" where
  "overfillOps ty n =
     [Upload ty (replicate n ''file''), Paste [''pasted''], PasteAdd ty]
       @ concat (replicate (Suc n) [CropComplete (PixelCrop 0 0 64 64), CropConfirm exampleEnv])"

section \<open>Auxiliary facts\<close>

lemma currentCount_photoSet: "currentCount ty s = int (length (photoSet ty s))"
  by (simp add: currentCount_def photoSet_def)

lemma js_slice0_nonneg: "0 \<le> e \<Longrightarrow> js_slice0 xs e = take (nat e) xs"
  by (simp add: js_slice0_def)

lemma length_js_slice0_nonneg:
  "0 \<le> e \<Longrightarrow> int (length (js_slice0 xs e)) = min (int (length xs)) e"
  by (auto simp add: js_slice0_def min_def)

lemma upload_state:
  assumes "int (length (photoSet ty s)) \<le> maxImages ty"
  shows "handleImageUpload rd (Some fs) ty s =
     s\<lparr>cropQueue := cropQueue s @
          map (\<lambda>f. \<lparr>dataUrl = rd f, type = ty\<rparr>)
            (take (nat (maxImages ty - int (length (photoSet ty s)))) fs)\<rparr>"
  using assms
  by (simp add: handleImageUpload_def uploadItems_def currentCount_photoSet js_slice0_nonneg)

lemma upload_count:
  assumes "int (length (photoSet ty s)) \<le> maxImages ty"
  shows "int (length (uploadItems rd fs ty s)) =
     min (int (length fs)) (maxImages ty - int (length (photoSet ty s)))"
  using assms
  by (simp add: uploadItems_def currentCount_photoSet length_js_slice0_nonneg)

lemma paste_queue:
  assumes "int (length (photoSet ty s)) \<le> maxImages ty"
  shows "cropQueue (handleAddPastedImages ty s) =
     cropQueue s @
       map (\<lambda>d. \<lparr>dataUrl = d, type = ty\<rparr>)
         (take (nat (maxImages ty - int (length (photoSet ty s)))) (pastedImages s))"
  using assms
  by (simp add: handleAddPastedImages_def currentCount_photoSet js_slice0_nonneg Let_def)

lemma paste_count:
  assumes "int (length (photoSet ty s)) \<le> maxImages ty"
  shows "int (length (cropQueue (handleAddPastedImages ty s))) - int (length (cropQueue s)) =
     min (int (length (pastedImages s))) (maxImages ty - int (length (photoSet ty s)))"
  using assms by (auto simp add: paste_queue min_def)

lemma paste_frame:
  "handleAddPastedImages ty s\<lparr>cropQueue := [], pastedImages := [], isPasteModalOpen := False\<rparr> =
     s\<lparr>cropQueue := [], pastedImages := [], isPasteModalOpen := False\<rparr>"
  by (simp add: handleAddPastedImages_def Let_def)

lemma generationPromise_fulfils: "generationPromise outcome = Inr (settledSlot outcome)"
  by (cases outcome) (simp_all add: generationPromise_def then_p_def catch_p_def settledSlot_def)

lemma promise_all_fulfilled: "promise_all (map (\<lambda>i. Inr (g i)) xs) = Inr (map g xs)"
  by (induction xs) simp_all

lemma js_set_inside: "i < length xs \<Longrightarrow> js_set xs i v = xs[i := Some v]"
  by (simp add: js_set_def)

lemma fold_js_set_length:
  "\<forall>i \<in> set order. i < length xs \<Longrightarrow>
     length (fold (\<lambda>i ys. js_set ys i (f i)) order xs) = length xs"
  by (induction order arbitrary: xs) (simp_all add: js_set_inside)

lemma fold_js_set_nth:
  "\<forall>i \<in> set order. i < length xs \<Longrightarrow> j < length xs \<Longrightarrow>
     fold (\<lambda>i ys. js_set ys i (f i)) order xs ! j =
       (if j \<in> set order then Some (f j) else xs ! j)"
proof (induction order arbitrary: xs)
  case Nil
  then show ?case by simp
next
  case (Cons a order)
  have a: "a < length xs" using Cons.prems(1) by simp
  have rest: "\<forall>i \<in> set order. i < length (xs[a := Some (f a)])"
    using Cons.prems(1) by simp
  have j: "j < length (xs[a := Some (f a)])" using Cons.prems(2) by simp
  show ?case
    using Cons.IH [OF rest j] a Cons.prems(2)
    by (auto simp add: js_set_inside nth_list_update)
qed

lemma fold_setSlot:
  "fold (\<lambda>i. setSlot i (f i)) order s =
     s\<lparr>generatedImages := fold (\<lambda>i ys. js_set ys i (f i)) order (generatedImages s)\<rparr>"
  by (induction order arbitrary: s) (simp_all add: setSlot_def)

lemma fold_js_set_all:
  assumes "set order = {0..<k}"
  shows "fold (\<lambda>i ys. js_set ys i (f i)) order (replicate k x) = map (\<lambda>i. Some (f i)) [0..<k]"
proof (rule nth_equalityI)
  have bound: "\<forall>i \<in> set order. i < length (replicate k x)" using assms by simp
  show "length (fold (\<lambda>i ys. js_set ys i (f i)) order (replicate k x)) =
        length (map (\<lambda>i. Some (f i)) [0..<k])"
    using fold_js_set_length [OF bound] by simp
  fix j
  assume "j < length (fold (\<lambda>i ys. js_set ys i (f i)) order (replicate k x))"
  then have j: "j < length (replicate k x)" using fold_js_set_length [OF bound, of f] by simp
  then have "j \<in> set order" using assms by simp
  then show "fold (\<lambda>i ys. js_set ys i (f i)) order (replicate k x) ! j =
        map (\<lambda>i. Some (f i)) [0..<k] ! j"
    using fold_js_set_nth [OF bound j, of f] j by simp
qed

lemma handleGenerateClick_result:
  assumes "generateGuard s = False" and "set order = {0..<generationCount s}"
  shows "handleGenerateClick outcome order s =
           Inr (s\<lparr>appState := results_shown,
                  generatedImages :=
                    map (\<lambda>i. Some (settledSlot (outcome i))) [0..<generationCount s]\<rparr>)"
proof -
  have step: "(\<lambda>i. applyOutcome i (generationPromise (outcome i))) =
              (\<lambda>i. setSlot i (settledSlot (outcome i)))"
    by (simp add: fun_eq_iff applyOutcome_def generationPromise_fulfils)
  have all: "promise_all (map (\<lambda>i. generationPromise (outcome i)) [0..<generationCount s]) =
             Inr (map (\<lambda>i. settledSlot (outcome i)) [0..<generationCount s])"
    by (simp add: generationPromise_fulfils promise_all_fulfilled)
  have slots: "fold (\<lambda>i ys. js_set ys i (settledSlot (outcome i))) order
                 (replicate (generationCount s) (Some pendingSlot)) =
               map (\<lambda>i. Some (settledSlot (outcome i))) [0..<generationCount s]"
    by (rule fold_js_set_all [OF assms(2)])
  show ?thesis
    using assms(1)
    by (simp add: handleGenerateClick_def handleGenerateClickRun_def Let_def step all
        fold_setSlot slots)
qed

lemma handleGenerateClick_no_fault: "handleGenerateClick outcome order s \<noteq> Inl e"
  by (simp add: handleGenerateClick_def handleGenerateClickRun_def Let_def
      generationPromise_fulfils promise_all_fulfilled)

lemma settledSlot_status: "status (settledSlot outcome) = Done \<or> status (settledSlot outcome) = Error"
  by (cases outcome) (simp_all add: settledSlot_def doneSlot_def errorSlot_def)

lemma generateGuard_iff: "generateGuard s = (uploadedImages s = [] \<or> inspirationImages s = [])"
  by (simp add: generateGuard_def)

lemma slotSettled_settledSlot: "slotSettled (Some (settledSlot outcome))"
  using settledSlot_status [of outcome] by (simp add: slotSettled_def)

lemma js_get_js_set: "js_get (js_set xs i v) i = Some v"
  by (simp add: js_get_def js_set_def nth_append)

lemma js_set_twice_inside:
  "i < length xs \<Longrightarrow> js_set (js_set xs i v) i w = xs[i := Some w]"
  by (simp add: js_set_def)

lemma handleRegenerateSlot_no_fault: "handleRegenerateSlot outcome index s \<noteq> Inl e"
  by (cases outcome)
    (simp_all add: handleRegenerateSlot_def handleRegenerateSlotRun_def regenerateSettle_def
      Let_def)

lemma handleRegenerateSlot_allowed:
  assumes "regenerateGuard index s = False"
  shows "handleRegenerateSlot outcome index s =
           Inr (s\<lparr>generatedImages :=
                    js_set (js_set (generatedImages s) index pendingSlot) index
                      (settledSlot outcome)\<rparr>)"
  using assms
  by (cases outcome)
    (simp_all add: handleRegenerateSlot_def handleRegenerateSlotRun_def regenerateSettle_def
      Let_def setSlot_def settledSlot_def)

lemma digit_value: "d < 10 \<Longrightarrow> of_char (digit_char d) - 48 = d"
  by (simp add: digit_char_def)

lemma nat_of_digits_string_of_nat: "nat_of_digits (string_of_nat n) = n"
proof (induction n rule: string_of_nat.induct)
  case (1 n)
  show ?case
  proof (cases "n < 10")
    case True
    then show ?thesis
      by (subst string_of_nat.simps) (simp add: nat_of_digits_def digit_value)
  next
    case False
    have "nat_of_digits (string_of_nat (n div 10)) = n div 10"
      using 1 False by simp
    then show ?thesis
      using False
      by (subst string_of_nat.simps) (simp add: nat_of_digits_def digit_value)
  qed
qed

lemma string_of_nat_inj: "string_of_nat m = string_of_nat n \<Longrightarrow> m = n"
  by (metis nat_of_digits_string_of_nat)

lemma resultLabel_inj: "resultLabel i = resultLabel j \<Longrightarrow> i = j"
  using string_of_nat_inj [of "i + 1" "j + 1"] by (simp add: resultLabel_def)

lemma record_set_fresh: "k \<notin> fst ` set al \<Longrightarrow> record_set k v al = al @ [(k, v)]"
  by (induction al) auto

lemma collectStep_cases:
  "collectStep (n, slot) acc =
     (if hasImage slot then record_set (resultLabel n) (slotUrl slot) acc else acc)"
  by (auto simp add: collectStep_def hasImage_def slotUrl_def truthy_def split: option.splits)

lemma fold_collectStep:
  "fst ` set acc \<subseteq> resultLabel ` {..<n} \<Longrightarrow>
     fold collectStep (enumerate n slots) acc = acc @ doneEntries n slots"
proof (induction slots arbitrary: n acc)
  case Nil
  then show ?case by simp
next
  case (Cons slot slots)
  show ?case
  proof (cases "hasImage slot")
    case True
    have fresh: "resultLabel n \<notin> fst ` set acc"
    proof
      assume "resultLabel n \<in> fst ` set acc"
      then obtain j where "j < n" "resultLabel n = resultLabel j"
        using Cons.prems by auto
      then show False using resultLabel_inj by blast
    qed
    have keys: "fst ` set (acc @ [(resultLabel n, slotUrl slot)]) \<subseteq> resultLabel ` {..<Suc n}"
      using Cons.prems by (auto simp add: less_Suc_eq)
    show ?thesis
      using True Cons.IH [OF keys]
      by (simp add: collectStep_cases record_set_fresh [OF fresh])
  next
    case False
    have keys: "fst ` set acc \<subseteq> resultLabel ` {..<Suc n}"
      using Cons.prems by (auto simp add: less_Suc_eq)
    show ?thesis
      using False Cons.IH [OF keys] by (simp add: collectStep_cases)
  qed
qed

lemma collectImageData_doneEntries: "collectImageData images = doneEntries 0 images"
  using fold_collectStep [of "[]" 0 images] by (simp add: collectImageData_def)

lemma doneEntries_indices:
  "doneEntries n slots =
     map (\<lambda>i. (resultLabel (n + i), slotUrl (slots ! i)))
       (filter (\<lambda>i. hasImage (slots ! i)) [0..<length slots])"
proof (induction slots arbitrary: n)
  case Nil
  then show ?case by simp
next
  case (Cons slot slots)
  have upt: "[0..<length (slot # slots)] = 0 # map Suc [0..<length slots]"
    by (simp add: upt_conv_Cons map_Suc_upt del: upt_Suc)
  show ?case
    unfolding upt
    by (simp add: Cons.IH [of "Suc n"] filter_map comp_def)
qed

lemma doneEntries_keys:
  "(k, v) \<in> set (doneEntries n slots) \<Longrightarrow> \<exists>j. n \<le> j \<and> k = resultLabel j"
proof (induction slots arbitrary: n)
  case Nil
  then show ?case by simp
next
  case (Cons slot slots)
  show ?case
  proof (cases "(k, v) \<in> set (doneEntries (Suc n) slots)")
    case True
    then obtain j where "Suc n \<le> j" "k = resultLabel j"
      using Cons.IH [of "Suc n"] by blast
    then have "n \<le> j \<and> k = resultLabel j" by simp
    then show ?thesis by blast
  next
    case False
    then have "k = resultLabel n"
      using Cons.prems by (simp split: if_splits)
    then show ?thesis by blast
  qed
qed

lemma doneEntries_distinct: "distinct (map fst (doneEntries n slots))"
proof (induction slots arbitrary: n)
  case Nil
  then show ?case by simp
next
  case (Cons slot slots)
  have fresh: "resultLabel n \<notin> fst ` set (doneEntries (Suc n) slots)"
  proof
    assume "resultLabel n \<in> fst ` set (doneEntries (Suc n) slots)"
    then obtain v where "(resultLabel n, v) \<in> set (doneEntries (Suc n) slots)"
      by force
    then obtain j where "Suc n \<le> j" "resultLabel n = resultLabel j"
      using doneEntries_keys by blast
    then show False using resultLabel_inj [of n j] by simp
  qed
  show ?case using fresh Cons.IH [of "Suc n"] by simp
qed

lemma hasImage_slotDone: "hasImage slot \<Longrightarrow> slotDone slot"
  by (simp add: hasImage_def slotDone_def split: option.splits)

lemma doneEntries_none:
  "\<forall>slot \<in> set slots. slotDone slot = False \<Longrightarrow> doneEntries n slots = []"
  by (induction slots arbitrary: n) (auto dest: hasImage_slotDone)

lemma doneEntries_albumEntries:
  assumes "\<forall>slot \<in> set images. slotDone slot \<longrightarrow> hasImage slot"
  shows "doneEntries 0 images = albumEntries images"
proof -
  have "filter (\<lambda>i. hasImage (images ! i)) [0..<length images] =
        filter (\<lambda>i. slotDone (images ! i)) [0..<length images]"
    using assms by (intro filter_cong) (auto dest: hasImage_slotDone)
  then show ?thesis
    by (simp add: doneEntries_indices albumEntries_def resultLabel_def)
qed

lemma albumEntries_nonempty:
  assumes "slot \<in> set images" and "slotDone slot"
  shows "albumEntries images \<noteq> []"
proof -
  obtain i where "i < length images" "images ! i = slot"
    using assms(1) by (auto simp add: in_set_conv_nth)
  then have "i \<in> set (filter (\<lambda>i. slotDone (images ! i)) [0..<length images])"
    using assms(2) by simp
  then have "filter (\<lambda>i. slotDone (images ! i)) [0..<length images] \<noteq> []"
    by (metis empty_iff list.set(1))
  then show ?thesis by (simp add: albumEntries_def)
qed

lemma albumTry_empty:
  assumes "\<forall>slot \<in> set images. slotDone slot = False"
  shows "albumTry createAlbumPage images = ([Alert noImagesNotice], Inr ())"
  using doneEntries_none [OF assms, of 0]
  by (simp add: albumTry_def collectImageData_doneEntries)

lemma albumTry_compose:
  assumes "\<forall>slot \<in> set images. slotDone slot \<longrightarrow> hasImage slot"
    and "slot \<in> set images" and "slotDone slot"
  shows "albumTry createAlbumPage images =
     (case createAlbumPage (albumEntries images) of
        Inl err \<Rightarrow> ([ComposeCall (albumEntries images)], Inl err)
      | Inr albumDataUrl \<Rightarrow>
          ([ComposeCall (albumEntries images),
            Download albumDataUrl ''perfect-shot-album.jpg''], Inr ()))"
  using albumEntries_nonempty [OF assms(2,3)] doneEntries_albumEntries [OF assms(1)]
  by (simp add: albumTry_def collectImageData_doneEntries Let_def)

lemma albumEntries_distinct:
  assumes "\<forall>slot \<in> set images. slotDone slot \<longrightarrow> hasImage slot"
  shows "distinct (map fst (albumEntries images))"
  using doneEntries_distinct [of 0 images] doneEntries_albumEntries [OF assms] by simp

lemma handleDownloadAlbum_states:
  "fst (snd (handleDownloadAlbum createAlbumPage s)) = s\<lparr>isDownloading := True\<rparr> \<and>
   snd (snd (handleDownloadAlbum createAlbumPage s)) = s\<lparr>isDownloading := False\<rparr>"
  by (simp add: handleDownloadAlbum_def Let_def)

section \<open>Reset\<close>

text \<open>
  C7. From any state, \<open>handleReset\<close> leaves both PhotoSets empty, the slot array empty,
  the instructions empty and the view state idle; the crop queue, the crop selection
  and the paste buffer are exactly as they were.
\<close>

theorem handleReset_clears:
  "uploadedImages (handleReset s) = [] \<and>
   inspirationImages (handleReset s) = [] \<and>
   generatedImages (handleReset s) = [] \<and>
   userPrompt (handleReset s) = [] \<and>
   appState (handleReset s) = idle \<and>
   cropQueue (handleReset s) = cropQueue s \<and>
   crop (handleReset s) = crop s \<and>
   completedCrop (handleReset s) = completedCrop s \<and>
   pastedImages (handleReset s) = pastedImages s \<and>
   isPasteModalOpen (handleReset s) = isPasteModalOpen s"
  by (simp add: handleReset_def)

section \<open>Intake\<close>

text \<open>
  C10. When \<open>handleAddPastedImages\<close> is invoked for a category whose PhotoSet has
  reached its maximum, the state is returned as it is: the crop queue and both PhotoSets
  are unchanged, the paste buffer is not cleared and the modal stays as it was. When the
  PhotoSet is below its maximum, the modal is closed and the buffer cleared.
\<close>

theorem handleAddPastedImages_full:
  "(maxImages ty \<le> int (length (photoSet ty s)) \<longrightarrow>
      handleAddPastedImages ty s = s) \<and>
   (int (length (photoSet ty s)) < maxImages ty \<longrightarrow>
      isPasteModalOpen (handleAddPastedImages ty s) = False \<and>
      pastedImages (handleAddPastedImages ty s) = [])"
  by (simp add: handleAddPastedImages_def currentCount_photoSet Let_def)

theorem handleAddPastedImages_full_witness:
  "maxImages main \<le> int (length (photoSet main exampleFull)) \<and>
   handleAddPastedImages main exampleFull = exampleFull \<and>
   isPasteModalOpen (handleAddPastedImages main exampleFull) = True \<and>
   pastedImages (handleAddPastedImages main exampleFull) = [''p1''] \<and>
   int (length (photoSet main exampleNearlyFull)) < maxImages main \<and>
   isPasteModalOpen (handleAddPastedImages main exampleNearlyFull) = False \<and>
   pastedImages (handleAddPastedImages main exampleNearlyFull) = []"
proof -
  have full: "maxImages main \<le> int (length (photoSet main exampleFull))"
    by (simp add: maxImages_def MAX_MAIN_IMAGES_def photoSet_def exampleFull_def)
  have room: "int (length (photoSet main exampleNearlyFull)) < maxImages main"
    by (simp add: maxImages_def MAX_MAIN_IMAGES_def photoSet_def exampleNearlyFull_def)
  have same: "handleAddPastedImages main exampleFull = exampleFull"
    using handleAddPastedImages_full [of main exampleFull] full by blast
  have closed: "isPasteModalOpen (handleAddPastedImages main exampleNearlyFull) = False \<and>
      pastedImages (handleAddPastedImages main exampleNearlyFull) = []"
    using handleAddPastedImages_full [of main exampleNearlyFull] room by blast
  have kept: "isPasteModalOpen exampleFull = True \<and> pastedImages exampleFull = [''p1'']"
    by (simp add: exampleFull_def)
  show ?thesis using full room same closed kept by simp
qed

text \<open>
  C9. For an intake batch and a target category whose PhotoSet is within its maximum,
  the items accepted are the first \<open>categoryMax - currentCategorySize\<close> items of the
  batch, so their number is the minimum of the batch length and that difference. A file
  upload appends one queue entry of the category per accepted file and changes nothing
  else; a paste-add appends one entry per accepted image and, apart from the queue, the
  paste buffer and the modal flag, changes nothing. Neither yields an error.
\<close>

theorem intake_accepts_available:
  assumes "int (length (photoSet ty s)) \<le> maxImages ty"
  shows
  "handleImageUpload rd (Some fs) ty s =
     s\<lparr>cropQueue := cropQueue s @
          map (\<lambda>f. \<lparr>dataUrl = rd f, type = ty\<rparr>)
            (take (nat (maxImages ty - int (length (photoSet ty s)))) fs)\<rparr> \<and>
   int (length (uploadItems rd fs ty s)) =
     min (int (length fs)) (maxImages ty - int (length (photoSet ty s))) \<and>
   cropQueue (handleAddPastedImages ty s) =
     cropQueue s @
       map (\<lambda>d. \<lparr>dataUrl = d, type = ty\<rparr>)
         (take (nat (maxImages ty - int (length (photoSet ty s)))) (pastedImages s)) \<and>
   int (length (cropQueue (handleAddPastedImages ty s))) - int (length (cropQueue s)) =
     min (int (length (pastedImages s))) (maxImages ty - int (length (photoSet ty s))) \<and>
   handleAddPastedImages ty s\<lparr>cropQueue := [], pastedImages := [], isPasteModalOpen := False\<rparr> =
     s\<lparr>cropQueue := [], pastedImages := [], isPasteModalOpen := False\<rparr>"
  using upload_state [OF assms] upload_count [OF assms] paste_queue [OF assms]
    paste_count [OF assms] paste_frame
  by blast

theorem intake_accepts_available_witness:
  "int (length (photoSet main exampleNearlyFull)) \<le> maxImages main \<and>
   cropQueue (handleImageUpload (\<lambda>f. f) (Some [''f1'', ''f2'', ''f3'']) main exampleNearlyFull) =
     [\<lparr>dataUrl = ''f1'', type = main\<rparr>, \<lparr>dataUrl = ''f2'', type = main\<rparr>] \<and>
   int (length (uploadItems (\<lambda>f. f) [''f1'', ''f2'', ''f3''] main exampleNearlyFull)) = 2 \<and>
   cropQueue (handleAddPastedImages main exampleNearlyFull) =
     [\<lparr>dataUrl = ''p1'', type = main\<rparr>, \<lparr>dataUrl = ''p2'', type = main\<rparr>] \<and>
   uploadedImages (handleAddPastedImages main exampleNearlyFull) =
     uploadedImages exampleNearlyFull"
proof -
  have within: "int (length (photoSet main exampleNearlyFull)) \<le> maxImages main"
    by (simp add: maxImages_def MAX_MAIN_IMAGES_def photoSet_def exampleNearlyFull_def)
  have avail: "nat (maxImages main - int (length (photoSet main exampleNearlyFull))) = 2"
    by (simp add: maxImages_def MAX_MAIN_IMAGES_def photoSet_def exampleNearlyFull_def)
  have queue: "cropQueue exampleNearlyFull = []"
    and buffer: "pastedImages exampleNearlyFull = [''p1'', ''p2'', ''p3'']"
    by (simp_all add: exampleNearlyFull_def initialState_def)
  note fact = intake_accepts_available [OF within, of "\<lambda>f. f" "[''f1'', ''f2'', ''f3'']"]
  have upload: "cropQueue (handleImageUpload (\<lambda>f. f) (Some [''f1'', ''f2'', ''f3'']) main
        exampleNearlyFull) =
      [\<lparr>dataUrl = ''f1'', type = main\<rparr>, \<lparr>dataUrl = ''f2'', type = main\<rparr>]"
    using fact by (simp add: avail queue numeral_2_eq_2)
  have count: "int (length (uploadItems (\<lambda>f. f) [''f1'', ''f2'', ''f3''] main exampleNearlyFull)) = 2"
    using fact avail by simp
  have paste: "cropQueue (handleAddPastedImages main exampleNearlyFull) =
      [\<lparr>dataUrl = ''p1'', type = main\<rparr>, \<lparr>dataUrl = ''p2'', type = main\<rparr>]"
    using fact by (simp add: avail queue buffer numeral_2_eq_2)
  have frame: "uploadedImages (handleAddPastedImages main exampleNearlyFull) =
      uploadedImages exampleNearlyFull"
  proof -
    have "handleAddPastedImages main exampleNearlyFull
            \<lparr>cropQueue := [], pastedImages := [], isPasteModalOpen := False\<rparr> =
          exampleNearlyFull\<lparr>cropQueue := [], pastedImages := [], isPasteModalOpen := False\<rparr>"
      using fact by blast
    then have "uploadedImages (handleAddPastedImages main exampleNearlyFull
            \<lparr>cropQueue := [], pastedImages := [], isPasteModalOpen := False\<rparr>) =
          uploadedImages (exampleNearlyFull
            \<lparr>cropQueue := [], pastedImages := [], isPasteModalOpen := False\<rparr>)"
      by (rule arg_cong)
    then show ?thesis by simp
  qed
  show ?thesis using within upload count paste frame by blast
qed

section \<open>Generation\<close>

text \<open>
  C2. When \<open>handleGenerateClick\<close> runs with both PhotoSets non-empty and a generation
  count \<open>K\<close>, the run issues exactly \<open>K\<close> requests, each with the PhotoSets and the
  instructions of the state, and while they are in flight the view state is generating
  and the slot array consists of exactly \<open>K\<close> pending slots. Once the \<open>K\<close> requests have
  settled, in whatever order, the handler completes with the state in which slot \<open>i\<close>
  holds the outcome of request \<open>i\<close>: the slot array has exactly \<open>K\<close> entries, each done
  or error and none pending, and the view state is results-shown. This holds for every
  \<open>K\<close>, in particular for 1 to 8. The run is that of the handler alone: \<open>order\<close> lists
  the indices 0 to \<open>K - 1\<close> as their requests settle, and no other handler updates the
  slot array in between.
\<close>

theorem handleGenerateClick_settles:
  assumes "uploadedImages s \<noteq> []" and "inspirationImages s \<noteq> []"
    and "generationCount s = K" and "set order = {0..<K}"
  shows "issued (handleGenerateClickRun outcome order s) =
           replicate K (uploadedImages s, inspirationImages s, userPrompt s) \<and>
         whilePending (handleGenerateClickRun outcome order s) =
           s\<lparr>appState := generating,
             generatedImages :=
               replicate K (Some \<lparr>status = Pending, url = None, error = None\<rparr>)\<rparr> \<and>
         completed (handleGenerateClickRun outcome order s) =
           handleGenerateClick outcome order s \<and>
         (\<exists>s'. handleGenerateClick outcome order s = Inr s' \<and>
               s' = s\<lparr>appState := results_shown,
                      generatedImages :=
                        map (\<lambda>i. Some (case outcome i of
                                          Inl err \<Rightarrow>
                                            \<lparr>status = Error, url = None,
                                             error = Some (errorMessage err)\<rparr>
                                        | Inr resultUrl \<Rightarrow>
                                            \<lparr>status = Done, url = Some resultUrl,
                                             error = None\<rparr>))
                          [0..<K]\<rparr> \<and>
               length (generatedImages s') = K \<and>
               (\<forall>slot \<in> set (generatedImages s').
                  \<exists>g. slot = Some g \<and> (status g = Done \<or> status g = Error)) \<and>
               appState s' = results_shown)"
proof -
  have guard: "generateGuard s = False" using assms(1,2) by (simp add: generateGuard_iff)
  have order: "set order = {0..<generationCount s}" using assms(3,4) by simp
  have calls: "issued (handleGenerateClickRun outcome order s) =
           replicate K (uploadedImages s, inspirationImages s, userPrompt s)"
    using guard assms(3)
    by (simp add: handleGenerateClickRun_def Let_def requestOf_def map_replicate_const)
  have flight: "whilePending (handleGenerateClickRun outcome order s) =
           s\<lparr>appState := generating,
             generatedImages :=
               replicate K (Some \<lparr>status = Pending, url = None, error = None\<rparr>)\<rparr>"
    using guard assms(3)
    by (simp add: handleGenerateClickRun_def Let_def pendingSlot_def)
  have same: "completed (handleGenerateClickRun outcome order s) =
           handleGenerateClick outcome order s"
    by (simp add: handleGenerateClick_def)
  have slot: "settledSlot p =
      (case p of
         Inl err \<Rightarrow> \<lparr>status = Error, url = None, error = Some (errorMessage err)\<rparr>
       | Inr resultUrl \<Rightarrow> \<lparr>status = Done, url = Some resultUrl, error = None\<rparr>)" for p
    by (cases p) (simp_all add: settledSlot_def errorSlot_def doneSlot_def)
  have result: "handleGenerateClick outcome order s =
      Inr (s\<lparr>appState := results_shown,
             generatedImages :=
               map (\<lambda>i. Some (case outcome i of
                                 Inl err \<Rightarrow>
                                   \<lparr>status = Error, url = None,
                                    error = Some (errorMessage err)\<rparr>
                               | Inr resultUrl \<Rightarrow>
                                   \<lparr>status = Done, url = Some resultUrl,
                                    error = None\<rparr>))
                 [0..<K]\<rparr>)"
    using handleGenerateClick_result [OF guard order, of outcome] assms(3)
    by (simp add: slot)
  have settled: "\<exists>g. slot = Some g \<and> (status g = Done \<or> status g = Error)"
    if "slot \<in> set (map (\<lambda>i. Some (settledSlot (outcome i))) [0..<K])" for slot
    using that settledSlot_status by auto
  have final: "\<exists>s'. handleGenerateClick outcome order s = Inr s' \<and>
               s' = s\<lparr>appState := results_shown,
                      generatedImages :=
                        map (\<lambda>i. Some (case outcome i of
                                          Inl err \<Rightarrow>
                                            \<lparr>status = Error, url = None,
                                             error = Some (errorMessage err)\<rparr>
                                        | Inr resultUrl \<Rightarrow>
                                            \<lparr>status = Done, url = Some resultUrl,
                                             error = None\<rparr>))
                          [0..<K]\<rparr> \<and>
               length (generatedImages s') = K \<and>
               (\<forall>slot \<in> set (generatedImages s').
                  \<exists>g. slot = Some g \<and> (status g = Done \<or> status g = Error)) \<and>
               appState s' = results_shown"
    using result settled by (simp add: slot [symmetric])
  show ?thesis using calls flight same final by blast
qed

theorem handleGenerateClick_settles_witness:
  "uploadedImages exampleReady \<noteq> [] \<and>
   inspirationImages exampleReady \<noteq> [] \<and>
   generationCount exampleReady = 3 \<and>
   set [2, 0, 1] = {0..<3::nat} \<and>
   issued (handleGenerateClickRun exampleOutcome [2, 0, 1] exampleReady) =
     [([''subject-1'', ''subject-2''], [''vibe-1''], []),
      ([''subject-1'', ''subject-2''], [''vibe-1''], []),
      ([''subject-1'', ''subject-2''], [''vibe-1''], [])] \<and>
   appState (whilePending (handleGenerateClickRun exampleOutcome [2, 0, 1] exampleReady)) =
     generating \<and>
   map (map_option status)
     (generatedImages (whilePending (handleGenerateClickRun exampleOutcome [2, 0, 1] exampleReady))) =
     [Some Pending, Some Pending, Some Pending] \<and>
   (\<exists>s'. handleGenerateClick exampleOutcome [2, 0, 1] exampleReady = Inr s' \<and>
         generatedImages s' =
           [Some \<lparr>status = Done, url = Some ''data:image/png;base64,AAAA'', error = None\<rparr>,
            Some \<lparr>status = Error, url = None, error = Some ''quota exceeded''\<rparr>,
            Some \<lparr>status = Done, url = Some ''data:image/png;base64,AAAA'', error = None\<rparr>] \<and>
         appState s' = results_shown)"
proof -
  have subject: "uploadedImages exampleReady \<noteq> []"
    and vibe: "inspirationImages exampleReady \<noteq> []"
    and count: "generationCount exampleReady = 3"
    by (simp_all add: exampleReady_def)
  have fields: "uploadedImages exampleReady = [''subject-1'', ''subject-2'']"
    "inspirationImages exampleReady = [''vibe-1'']" "userPrompt exampleReady = []"
    by (simp_all add: exampleReady_def initialState_def)
  have order: "set [2, 0, 1] = {0..<3::nat}" by auto
  have upt3: "[0..<3] = [0, 1, 2::nat]" by (simp add: upt_rec)
  have rep3: "replicate 3 x = [x, x, x]" for x :: 'a by (simp add: numeral_3_eq_3)
  note fact = handleGenerateClick_settles [OF subject vibe count order, of exampleOutcome]
  have calls: "issued (handleGenerateClickRun exampleOutcome [2, 0, 1] exampleReady) =
     [([''subject-1'', ''subject-2''], [''vibe-1''], []),
      ([''subject-1'', ''subject-2''], [''vibe-1''], []),
      ([''subject-1'', ''subject-2''], [''vibe-1''], [])]"
    using fact by (simp add: fields rep3)
  have flight: "whilePending (handleGenerateClickRun exampleOutcome [2, 0, 1] exampleReady) =
      exampleReady\<lparr>appState := generating,
        generatedImages := replicate 3 (Some \<lparr>status = Pending, url = None, error = None\<rparr>)\<rparr>"
    using fact by blast
  have view: "appState (whilePending (handleGenerateClickRun exampleOutcome [2, 0, 1] exampleReady)) =
     generating"
    unfolding flight by simp
  have slots: "map (map_option status)
     (generatedImages (whilePending (handleGenerateClickRun exampleOutcome [2, 0, 1] exampleReady))) =
     [Some Pending, Some Pending, Some Pending]"
    unfolding flight by (simp add: rep3)
  obtain s' where ended: "handleGenerateClick exampleOutcome [2, 0, 1] exampleReady = Inr s'"
    and final: "s' = exampleReady\<lparr>appState := results_shown,
                      generatedImages :=
                        map (\<lambda>i. Some (case exampleOutcome i of
                                          Inl err \<Rightarrow>
                                            \<lparr>status = Error, url = None,
                                             error = Some (errorMessage err)\<rparr>
                                        | Inr resultUrl \<Rightarrow>
                                            \<lparr>status = Done, url = Some resultUrl,
                                             error = None\<rparr>))
                          [0..<3]\<rparr>"
    using fact by blast
  have array: "generatedImages s' =
           [Some \<lparr>status = Done, url = Some ''data:image/png;base64,AAAA'', error = None\<rparr>,
            Some \<lparr>status = Error, url = None, error = Some ''quota exceeded''\<rparr>,
            Some \<lparr>status = Done, url = Some ''data:image/png;base64,AAAA'', error = None\<rparr>]"
    unfolding final upt3 by (simp add: exampleOutcome_def errorMessage_def)
  have shown: "appState s' = results_shown" by (simp add: final)
  show ?thesis
    using subject vibe count order calls view slots ended array shown by blast
qed

text \<open>
  C3. The slot array \<open>handleGenerateClick\<close> ends with does not depend on the order in
  which the requests settle: for two orders of the same outcomes the results are equal,
  and slot \<open>i\<close> holds the outcome of request \<open>i\<close> (done with its result, or error with
  its message).
\<close>

theorem handleGenerateClick_order_independent:
  assumes "set order1 = {0..<generationCount s}" and "set order2 = {0..<generationCount s}"
  shows "handleGenerateClick outcome order1 s = handleGenerateClick outcome order2 s \<and>
         (uploadedImages s \<noteq> [] \<and> inspirationImages s \<noteq> [] \<longrightarrow>
            (\<exists>s'. handleGenerateClick outcome order1 s = Inr s' \<and>
                  generatedImages s' =
                    map (\<lambda>i. Some (case outcome i of
                                      Inl err \<Rightarrow> errorSlot err
                                    | Inr resultUrl \<Rightarrow> doneSlot resultUrl))
                      [0..<generationCount s]))"
proof (cases "generateGuard s")
  case True
  then show ?thesis
    by (auto simp add: handleGenerateClick_def handleGenerateClickRun_def generateGuard_iff)
next
  case False
  then have guard: "generateGuard s = False" by simp
  show ?thesis
    using handleGenerateClick_result [OF guard assms(1), of outcome]
      handleGenerateClick_result [OF guard assms(2), of outcome]
    by (simp add: settledSlot_def)
qed

theorem handleGenerateClick_order_independent_witness:
  "set [0, 1, 2] = {0..<generationCount exampleReady} \<and>
   set [2, 1, 0] = {0..<generationCount exampleReady} \<and>
   handleGenerateClick exampleOutcome [0, 1, 2] exampleReady =
     handleGenerateClick exampleOutcome [2, 1, 0] exampleReady \<and>
   (\<exists>s'. handleGenerateClick exampleOutcome [2, 1, 0] exampleReady = Inr s' \<and>
         map (map_option status) (generatedImages s') = [Some Done, Some Error, Some Done])"
proof -
  have count: "generationCount exampleReady = 3"
    and sets: "uploadedImages exampleReady \<noteq> [] \<and> inspirationImages exampleReady \<noteq> []"
    by (simp_all add: exampleReady_def)
  have order1: "set [0, 1, 2] = {0..<generationCount exampleReady}"
    unfolding count by auto
  have order2: "set [2, 1, 0] = {0..<generationCount exampleReady}"
    unfolding count by auto
  note fact = handleGenerateClick_order_independent [OF order1 order2, of exampleOutcome]
  have same: "handleGenerateClick exampleOutcome [0, 1, 2] exampleReady =
     handleGenerateClick exampleOutcome [2, 1, 0] exampleReady"
    using fact by blast
  have upt3: "[0..<3] = [0, 1, 2::nat]" by (simp add: upt_rec)
  obtain s' where s': "handleGenerateClick exampleOutcome [0, 1, 2] exampleReady = Inr s'"
    and slots: "generatedImages s' =
      map (\<lambda>i. Some (case exampleOutcome i of
                        Inl err \<Rightarrow> errorSlot err
                      | Inr resultUrl \<Rightarrow> doneSlot resultUrl))
        [0..<generationCount exampleReady]"
    using fact sets by blast
  have "map (map_option status) (generatedImages s') = [Some Done, Some Error, Some Done]"
    unfolding slots count upt3
    by (simp add: exampleOutcome_def errorSlot_def doneSlot_def)
  then show ?thesis using order1 order2 same s' by auto
qed

text \<open>
  C5. A failure of the external call never leaves \<open>handleGenerateClick\<close> or
  \<open>handleRegenerateSlot\<close> as a fault: neither handler ends in a rejection, and the
  failure of request \<open>i\<close> (or of the regeneration request) is recorded in that slot as
  status error with a message, which is the error's own message for an \<open>Error\<close> and
  "An unknown error occurred." for any other thrown value.
\<close>

theorem generation_failure_captured:
  "handleGenerateClick outcome order s \<noteq> Inl fault \<and>
   handleRegenerateSlot single index s \<noteq> Inl fault \<and>
   (uploadedImages s \<noteq> [] \<and> inspirationImages s \<noteq> [] \<and>
    set order = {0..<generationCount s} \<and> i < generationCount s \<and> outcome i = Inl err \<longrightarrow>
      (\<exists>s'. handleGenerateClick outcome order s = Inr s' \<and>
            generatedImages s' ! i =
              Some \<lparr>status = Error, url = None, error = Some (errorMessage err)\<rparr>)) \<and>
   (uploadedImages s \<noteq> [] \<and> inspirationImages s \<noteq> [] \<and> slotPending s index = False \<longrightarrow>
      (\<exists>s'. handleRegenerateSlot (Inl err) index s = Inr s' \<and>
            js_get (generatedImages s') index =
              Some \<lparr>status = Error, url = None, error = Some (errorMessage err)\<rparr>)) \<and>
   errorMessage (ErrorObj message) = message \<and>
   errorMessage (NonError other) = ''An unknown error occurred.''"
proof -
  have gen: "\<exists>s'. handleGenerateClick outcome order s = Inr s' \<and>
            generatedImages s' ! i =
              Some \<lparr>status = Error, url = None, error = Some (errorMessage err)\<rparr>"
    if "uploadedImages s \<noteq> []" "inspirationImages s \<noteq> []"
      "set order = {0..<generationCount s}" "i < generationCount s" "outcome i = Inl err"
  proof -
    have guard: "generateGuard s = False" using that(1,2) by (simp add: generateGuard_iff)
    show ?thesis
      using handleGenerateClick_result [OF guard that(3), of outcome] that(4,5)
      by (simp add: settledSlot_def errorSlot_def)
  qed
  have regen: "\<exists>s'. handleRegenerateSlot (Inl err) index s = Inr s' \<and>
            js_get (generatedImages s') index =
              Some \<lparr>status = Error, url = None, error = Some (errorMessage err)\<rparr>"
    if "uploadedImages s \<noteq> []" "inspirationImages s \<noteq> []" "slotPending s index = False"
  proof -
    have guard: "regenerateGuard index s = False" using that by (simp add: regenerateGuard_def)
    show ?thesis
      using handleRegenerateSlot_allowed [OF guard, of "Inl err"]
      by (simp add: js_get_js_set settledSlot_def errorSlot_def)
  qed
  have msg: "errorMessage (ErrorObj message) = message \<and>
             errorMessage (NonError other) = ''An unknown error occurred.''"
    by (simp add: errorMessage_def)
  show ?thesis
    using gen regen msg handleGenerateClick_no_fault handleRegenerateSlot_no_fault by blast
qed

theorem generation_failure_captured_witness:
  "uploadedImages exampleReady \<noteq> [] \<and> inspirationImages exampleReady \<noteq> [] \<and>
   set [2, 0, 1] = {0..<generationCount exampleReady} \<and>
   1 < generationCount exampleReady \<and>
   exampleOutcome 1 = Inl (ErrorObj ''quota exceeded'') \<and>
   (\<exists>s'. handleGenerateClick exampleOutcome [2, 0, 1] exampleReady = Inr s' \<and>
         generatedImages s' ! 1 =
           Some \<lparr>status = Error, url = None, error = Some ''quota exceeded''\<rparr>) \<and>
   uploadedImages exampleResults \<noteq> [] \<and> inspirationImages exampleResults \<noteq> [] \<and>
   slotPending exampleResults 0 = False \<and>
   (\<exists>s'. handleRegenerateSlot (Inl (NonError ''offline'')) 0 exampleResults = Inr s' \<and>
         js_get (generatedImages s') 0 =
           Some \<lparr>status = Error, url = None, error = Some ''An unknown error occurred.''\<rparr>)"
proof -
  have ready: "uploadedImages exampleReady \<noteq> [] \<and> inspirationImages exampleReady \<noteq> []"
    and count: "generationCount exampleReady = 3"
    by (simp_all add: exampleReady_def)
  have order: "set [2, 0, 1] = {0..<generationCount exampleReady}"
    unfolding count by auto
  have index: "1 < generationCount exampleReady" by (simp add: count)
  have fails: "exampleOutcome 1 = Inl (ErrorObj ''quota exceeded'')"
    by (simp add: exampleOutcome_def)
  have results: "uploadedImages exampleResults \<noteq> [] \<and> inspirationImages exampleResults \<noteq> []"
    by (simp add: exampleResults_def exampleReady_def)
  have free: "slotPending exampleResults 0 = False"
    by (simp add: slotPending_def js_get_def exampleResults_def doneSlot_def)
  have gen: "\<exists>s'. handleGenerateClick exampleOutcome [2, 0, 1] exampleReady = Inr s' \<and>
         generatedImages s' ! 1 =
           Some \<lparr>status = Error, url = None, error = Some ''quota exceeded''\<rparr>"
    using generation_failure_captured
      [of exampleOutcome "[2, 0, 1]" exampleReady _ _ _ 1 "ErrorObj ''quota exceeded''"]
      ready order index fails
    by (simp add: errorMessage_def)
  have regen: "\<exists>s'. handleRegenerateSlot (Inl (NonError ''offline'')) 0 exampleResults = Inr s' \<and>
         js_get (generatedImages s') 0 =
           Some \<lparr>status = Error, url = None, error = Some ''An unknown error occurred.''\<rparr>"
    using generation_failure_captured
      [of _ _ exampleResults _ _ 0 _ "NonError ''offline''"]
      results free
    by (simp add: errorMessage_def)
  show ?thesis using ready order index fails results free gen regen by blast
qed

text \<open>
  C4. \<open>handleRegenerateSlot\<close> on index \<open>i\<close> changes nothing and issues no request when
  a PhotoSet is empty or slot \<open>i\<close> is pending. Otherwise, for an existing slot \<open>i\<close>, the
  run issues exactly one request, with the PhotoSets and the instructions of the state;
  while the request is in flight slot \<open>i\<close>, and only it, is pending; and when the
  request has settled the handler completes with the state in which slot \<open>i\<close> holds the
  outcome of that request, done with the result or error with the message. The length
  of the slot array, every other slot, the view state and all other state are as before.
\<close>

theorem handleRegenerateSlot_single_slot:
  "(uploadedImages s = [] \<or> inspirationImages s = [] \<or>
    (index < length (generatedImages s) \<and>
     (\<exists>g. generatedImages s ! index = Some g \<and> status g = Pending)) \<longrightarrow>
      handleRegenerateSlotRun outcome index s =
        \<lparr>issued = [], whilePending = s, completed = Inr s\<rparr> \<and>
      handleRegenerateSlot outcome index s = Inr s) \<and>
   (uploadedImages s \<noteq> [] \<and> inspirationImages s \<noteq> [] \<and>
    index < length (generatedImages s) \<and>
    (\<forall>g. generatedImages s ! index = Some g \<longrightarrow> status g \<noteq> Pending) \<longrightarrow>
      issued (handleRegenerateSlotRun outcome index s) =
        [(uploadedImages s, inspirationImages s, userPrompt s)] \<and>
      whilePending (handleRegenerateSlotRun outcome index s) =
        s\<lparr>generatedImages :=
            (generatedImages s)[index := Some \<lparr>status = Pending, url = None, error = None\<rparr>]\<rparr> \<and>
      completed (handleRegenerateSlotRun outcome index s) =
        handleRegenerateSlot outcome index s \<and>
      (\<exists>s'. handleRegenerateSlot outcome index s = Inr s' \<and>
            s' = s\<lparr>generatedImages :=
                     (generatedImages s)
                       [index := Some (case outcome of
                                         Inl err \<Rightarrow>
                                           \<lparr>status = Error, url = None,
                                            error = Some (errorMessage err)\<rparr>
                                       | Inr resultUrl \<Rightarrow>
                                           \<lparr>status = Done, url = Some resultUrl,
                                            error = None\<rparr>)]\<rparr> \<and>
            (\<exists>g. generatedImages s' ! index = Some g \<and>
                 (status g = Done \<or> status g = Error)) \<and>
            length (generatedImages s') = length (generatedImages s) \<and>
            (\<forall>j. j \<noteq> index \<longrightarrow> generatedImages s' ! j = generatedImages s ! j) \<and>
            appState s' = appState s \<and>
            s'\<lparr>generatedImages := []\<rparr> = s\<lparr>generatedImages := []\<rparr>))"
proof -
  have pending_iff: "slotPending s index =
      (index < length (generatedImages s) \<and>
       (\<exists>g. generatedImages s ! index = Some g \<and> status g = Pending))"
    by (auto simp add: slotPending_def js_get_def split: option.splits)
  have blocked: "handleRegenerateSlotRun outcome index s =
        \<lparr>issued = [], whilePending = s, completed = Inr s\<rparr> \<and>
      handleRegenerateSlot outcome index s = Inr s"
    if "uploadedImages s = [] \<or> inspirationImages s = [] \<or>
        (index < length (generatedImages s) \<and>
         (\<exists>g. generatedImages s ! index = Some g \<and> status g = Pending))"
  proof -
    have "regenerateGuard index s" using that by (auto simp add: regenerateGuard_def pending_iff)
    then show ?thesis
      by (simp add: handleRegenerateSlot_def handleRegenerateSlotRun_def)
  qed
  have allowed: "issued (handleRegenerateSlotRun outcome index s) =
        [(uploadedImages s, inspirationImages s, userPrompt s)] \<and>
      whilePending (handleRegenerateSlotRun outcome index s) =
        s\<lparr>generatedImages :=
            (generatedImages s)[index := Some \<lparr>status = Pending, url = None, error = None\<rparr>]\<rparr> \<and>
      completed (handleRegenerateSlotRun outcome index s) =
        handleRegenerateSlot outcome index s \<and>
      (\<exists>s'. handleRegenerateSlot outcome index s = Inr s' \<and>
            s' = s\<lparr>generatedImages :=
                     (generatedImages s)
                       [index := Some (case outcome of
                                         Inl err \<Rightarrow>
                                           \<lparr>status = Error, url = None,
                                            error = Some (errorMessage err)\<rparr>
                                       | Inr resultUrl \<Rightarrow>
                                           \<lparr>status = Done, url = Some resultUrl,
                                            error = None\<rparr>)]\<rparr> \<and>
            (\<exists>g. generatedImages s' ! index = Some g \<and>
                 (status g = Done \<or> status g = Error)) \<and>
            length (generatedImages s') = length (generatedImages s) \<and>
            (\<forall>j. j \<noteq> index \<longrightarrow> generatedImages s' ! j = generatedImages s ! j) \<and>
            appState s' = appState s \<and>
            s'\<lparr>generatedImages := []\<rparr> = s\<lparr>generatedImages := []\<rparr>)"
    if sets: "uploadedImages s \<noteq> []" "inspirationImages s \<noteq> []"
      and inside: "index < length (generatedImages s)"
      and free: "\<forall>g. generatedImages s ! index = Some g \<longrightarrow> status g \<noteq> Pending"
  proof -
    have "slotPending s index = False" using free by (auto simp add: pending_iff)
    then have guard: "regenerateGuard index s = False"
      using sets by (simp add: regenerateGuard_def)
    have reqs: "issued (handleRegenerateSlotRun outcome index s) =
        [(uploadedImages s, inspirationImages s, userPrompt s)]"
      using guard by (simp add: handleRegenerateSlotRun_def Let_def requestOf_def)
    have flight: "whilePending (handleRegenerateSlotRun outcome index s) =
        s\<lparr>generatedImages :=
            (generatedImages s)[index := Some \<lparr>status = Pending, url = None, error = None\<rparr>]\<rparr>"
      using guard inside
      by (simp add: handleRegenerateSlotRun_def Let_def setSlot_def js_set_inside pendingSlot_def)
    have same: "completed (handleRegenerateSlotRun outcome index s) =
        handleRegenerateSlot outcome index s"
      by (simp add: handleRegenerateSlot_def)
    have slot: "settledSlot outcome =
      (case outcome of
         Inl err \<Rightarrow> \<lparr>status = Error, url = None, error = Some (errorMessage err)\<rparr>
       | Inr resultUrl \<Rightarrow> \<lparr>status = Done, url = Some resultUrl, error = None\<rparr>)"
      by (cases outcome) (simp_all add: settledSlot_def errorSlot_def doneSlot_def)
    have final: "handleRegenerateSlot outcome index s =
        Inr (s\<lparr>generatedImages := (generatedImages s)[index := Some (settledSlot outcome)]\<rparr>)"
      using handleRegenerateSlot_allowed [OF guard, of outcome] inside
      by (simp add: js_set_twice_inside)
    have "\<exists>s'. handleRegenerateSlot outcome index s = Inr s' \<and>
            s' = s\<lparr>generatedImages := (generatedImages s)[index := Some (settledSlot outcome)]\<rparr> \<and>
            (\<exists>g. generatedImages s' ! index = Some g \<and>
                 (status g = Done \<or> status g = Error)) \<and>
            length (generatedImages s') = length (generatedImages s) \<and>
            (\<forall>j. j \<noteq> index \<longrightarrow> generatedImages s' ! j = generatedImages s ! j) \<and>
            appState s' = appState s \<and>
            s'\<lparr>generatedImages := []\<rparr> = s\<lparr>generatedImages := []\<rparr>"
      using final inside settledSlot_status [of outcome] by simp
    then show ?thesis using reqs flight same unfolding slot by blast
  qed
  show ?thesis using blocked allowed by blast
qed

theorem handleRegenerateSlot_single_slot_witness:
  "0 < length (generatedImages exampleGenerating) \<and>
   generatedImages exampleGenerating ! 0 = Some pendingSlot \<and> status pendingSlot = Pending \<and>
   handleRegenerateSlotRun (Inr ''img-b'') 0 exampleGenerating =
     \<lparr>issued = [], whilePending = exampleGenerating, completed = Inr exampleGenerating\<rparr> \<and>
   uploadedImages exampleResults \<noteq> [] \<and> inspirationImages exampleResults \<noteq> [] \<and>
   1 < length (generatedImages exampleResults) \<and>
   generatedImages exampleResults ! 1 = Some (errorSlot (NonError ''timeout'')) \<and>
   status (errorSlot (NonError ''timeout'')) = Error \<and>
   issued (handleRegenerateSlotRun (Inr ''img-b'') 1 exampleResults) =
     [([''subject-1'', ''subject-2''], [''vibe-1''], [])] \<and>
   map (map_option status)
     (generatedImages (whilePending (handleRegenerateSlotRun (Inr ''img-b'') 1 exampleResults))) =
     [Some Done, Some Pending, Some Done] \<and>
   (\<exists>s'. handleRegenerateSlot (Inr ''img-b'') 1 exampleResults = Inr s' \<and>
         generatedImages s' =
           [Some (doneSlot ''img-a''),
            Some \<lparr>status = Done, url = Some ''img-b'', error = None\<rparr>,
            Some (doneSlot ''img-c'')] \<and>
         appState s' = results_shown) \<and>
   (\<exists>s'. handleRegenerateSlot (Inl (ErrorObj ''quota exceeded'')) 1 exampleResults = Inr s' \<and>
         generatedImages s' =
           [Some (doneSlot ''img-a''),
            Some \<lparr>status = Error, url = None, error = Some ''quota exceeded''\<rparr>,
            Some (doneSlot ''img-c'')] \<and>
         appState s' = results_shown)"
proof -
  have gen: "generatedImages exampleGenerating =
      [Some pendingSlot, Some pendingSlot, Some pendingSlot]"
    by (simp add: exampleGenerating_def numeral_3_eq_3)
  have exists0: "0 < length (generatedImages exampleGenerating)"
    and head: "generatedImages exampleGenerating ! 0 = Some pendingSlot"
    by (simp_all add: gen)
  have pending: "status pendingSlot = Pending" by (simp add: pendingSlot_def)
  have blocked: "handleRegenerateSlotRun (Inr ''img-b'') 0 exampleGenerating =
     \<lparr>issued = [], whilePending = exampleGenerating, completed = Inr exampleGenerating\<rparr>"
    using handleRegenerateSlot_single_slot [of exampleGenerating 0 "Inr ''img-b''"]
      exists0 head pending
    by blast
  have slots: "generatedImages exampleResults =
      [Some (doneSlot ''img-a''), Some (errorSlot (NonError ''timeout'')),
       Some (doneSlot ''img-c'')]"
    and view: "appState exampleResults = results_shown"
    and fields: "uploadedImages exampleResults = [''subject-1'', ''subject-2'']"
      "inspirationImages exampleResults = [''vibe-1'']" "userPrompt exampleResults = []"
    by (simp_all add: exampleResults_def exampleReady_def initialState_def)
  have sets: "uploadedImages exampleResults \<noteq> []" "inspirationImages exampleResults \<noteq> []"
    by (simp_all add: fields)
  have exists1: "1 < length (generatedImages exampleResults)"
    and slot1: "generatedImages exampleResults ! 1 = Some (errorSlot (NonError ''timeout''))"
    by (simp_all add: slots)
  have failed: "status (errorSlot (NonError ''timeout'')) = Error"
    by (simp add: errorSlot_def)
  have free: "\<forall>g. generatedImages exampleResults ! 1 = Some g \<longrightarrow> status g \<noteq> Pending"
    using slot1 failed by simp
  note ok = handleRegenerateSlot_single_slot [of exampleResults 1 "Inr ''img-b''"]
  note bad = handleRegenerateSlot_single_slot [of exampleResults 1 "Inl (ErrorObj ''quota exceeded'')"]
  have calls: "issued (handleRegenerateSlotRun (Inr ''img-b'') 1 exampleResults) =
     [([''subject-1'', ''subject-2''], [''vibe-1''], [])]"
    using ok sets exists1 free by (simp add: fields)
  have flight: "whilePending (handleRegenerateSlotRun (Inr ''img-b'') 1 exampleResults) =
      exampleResults\<lparr>generatedImages :=
        (generatedImages exampleResults)
          [1 := Some \<lparr>status = Pending, url = None, error = None\<rparr>]\<rparr>"
    using ok sets exists1 free by blast
  have during: "map (map_option status)
     (generatedImages (whilePending (handleRegenerateSlotRun (Inr ''img-b'') 1 exampleResults))) =
     [Some Done, Some Pending, Some Done]"
    unfolding flight slots by (simp add: doneSlot_def)
  obtain s1 where s1: "handleRegenerateSlot (Inr ''img-b'') 1 exampleResults = Inr s1"
    and final1: "s1 = exampleResults\<lparr>generatedImages :=
        (generatedImages exampleResults)
          [1 := Some (case (Inr ''img-b'' :: string promise) of
                        Inl err \<Rightarrow>
                          \<lparr>status = Error, url = None, error = Some (errorMessage err)\<rparr>
                      | Inr resultUrl \<Rightarrow>
                          \<lparr>status = Done, url = Some resultUrl, error = None\<rparr>)]\<rparr>"
    using ok sets exists1 free by blast
  have done1: "generatedImages s1 =
           [Some (doneSlot ''img-a''),
            Some \<lparr>status = Done, url = Some ''img-b'', error = None\<rparr>,
            Some (doneSlot ''img-c'')] \<and> appState s1 = results_shown"
    by (simp add: final1 slots view)
  obtain s2 where s2: "handleRegenerateSlot (Inl (ErrorObj ''quota exceeded'')) 1 exampleResults = Inr s2"
    and final2: "s2 = exampleResults\<lparr>generatedImages :=
        (generatedImages exampleResults)
          [1 := Some (case (Inl (ErrorObj ''quota exceeded'') :: string promise) of
                        Inl err \<Rightarrow>
                          \<lparr>status = Error, url = None, error = Some (errorMessage err)\<rparr>
                      | Inr resultUrl \<Rightarrow>
                          \<lparr>status = Done, url = Some resultUrl, error = None\<rparr>)]\<rparr>"
    using bad sets exists1 free by blast
  have done2: "generatedImages s2 =
           [Some (doneSlot ''img-a''),
            Some \<lparr>status = Error, url = None, error = Some ''quota exceeded''\<rparr>,
            Some (doneSlot ''img-c'')] \<and> appState s2 = results_shown"
    by (simp add: final2 slots view errorMessage_def)
  show ?thesis
    using exists0 head pending blocked sets exists1 slot1 failed calls during s1 done1 s2 done2
    by blast
qed

section \<open>Album download\<close>

text \<open>
  C6. \<open>handleDownloadAlbum\<close> with no done slot shows the blocking notice and performs
  no compose call and no download. With at least one done slot, every done slot
  carrying its result image, it calls the composer exactly once, with one entry per
  done slot under the label "Result i+1" (the labels are distinct); on success the
  composed image is downloaded, on failure the error notice is shown and nothing is
  downloaded. In every case \<open>isDownloading\<close> is set while the handler is in flight and
  cleared when it ends, the rest of the state being untouched, and while it is set a
  click on the album button invokes nothing.
\<close>

theorem handleDownloadAlbum_guarded:
  "((\<forall>slot \<in> set (generatedImages s). slotDone slot = False) \<longrightarrow>
      fst (handleDownloadAlbum createAlbumPage s) = [Alert noImagesNotice]) \<and>
   ((\<forall>slot \<in> set (generatedImages s). slotDone slot \<longrightarrow> hasImage slot) \<and>
    (\<exists>slot \<in> set (generatedImages s). slotDone slot) \<longrightarrow>
      distinct (map fst (albumEntries (generatedImages s))) \<and>
      (\<forall>albumDataUrl. createAlbumPage (albumEntries (generatedImages s)) = Inr albumDataUrl \<longrightarrow>
         fst (handleDownloadAlbum createAlbumPage s) =
           [ComposeCall (albumEntries (generatedImages s)),
            Download albumDataUrl ''perfect-shot-album.jpg'']) \<and>
      (\<forall>err. createAlbumPage (albumEntries (generatedImages s)) = Inl err \<longrightarrow>
         fst (handleDownloadAlbum createAlbumPage s) =
           [ComposeCall (albumEntries (generatedImages s)),
            ConsoleError ''Failed to create or download album:'',
            Alert albumErrorNotice])) \<and>
   fst (snd (handleDownloadAlbum createAlbumPage s)) = s\<lparr>isDownloading := True\<rparr> \<and>
   snd (snd (handleDownloadAlbum createAlbumPage s)) = s\<lparr>isDownloading := False\<rparr> \<and>
   (isDownloading s \<longrightarrow> clickDownloadAlbum createAlbumPage s = None) \<and>
   clickDownloadAlbum secondCall (fst (snd (handleDownloadAlbum createAlbumPage s))) = None"
proof -
  have empty: "fst (handleDownloadAlbum createAlbumPage s) = [Alert noImagesNotice]"
    if "\<forall>slot \<in> set (generatedImages s). slotDone slot = False"
    using albumTry_empty [OF that, of createAlbumPage]
    by (simp add: handleDownloadAlbum_def Let_def)
  have compose: "distinct (map fst (albumEntries (generatedImages s))) \<and>
      (\<forall>albumDataUrl. createAlbumPage (albumEntries (generatedImages s)) = Inr albumDataUrl \<longrightarrow>
         fst (handleDownloadAlbum createAlbumPage s) =
           [ComposeCall (albumEntries (generatedImages s)),
            Download albumDataUrl ''perfect-shot-album.jpg'']) \<and>
      (\<forall>err. createAlbumPage (albumEntries (generatedImages s)) = Inl err \<longrightarrow>
         fst (handleDownloadAlbum createAlbumPage s) =
           [ComposeCall (albumEntries (generatedImages s)),
            ConsoleError ''Failed to create or download album:'',
            Alert albumErrorNotice])"
    if wf: "\<forall>slot \<in> set (generatedImages s). slotDone slot \<longrightarrow> hasImage slot"
      and some: "\<exists>slot \<in> set (generatedImages s). slotDone slot"
  proof -
    obtain slot where slot: "slot \<in> set (generatedImages s)" "slotDone slot"
      using some by blast
    note attempt = albumTry_compose [OF wf slot, of createAlbumPage]
    have ok: "fst (handleDownloadAlbum createAlbumPage s) =
           [ComposeCall (albumEntries (generatedImages s)),
            Download albumDataUrl ''perfect-shot-album.jpg'']"
      if "createAlbumPage (albumEntries (generatedImages s)) = Inr albumDataUrl"
      for albumDataUrl
      using attempt that by (simp add: handleDownloadAlbum_def Let_def)
    have bad: "fst (handleDownloadAlbum createAlbumPage s) =
           [ComposeCall (albumEntries (generatedImages s)),
            ConsoleError ''Failed to create or download album:'',
            Alert albumErrorNotice]"
      if "createAlbumPage (albumEntries (generatedImages s)) = Inl err" for err
      using attempt that by (simp add: handleDownloadAlbum_def Let_def)
    show ?thesis using albumEntries_distinct [OF wf] ok bad by blast
  qed
  have guard: "clickDownloadAlbum createAlbumPage s = None" if "isDownloading s"
    using that by (simp add: clickDownloadAlbum_def albumButtonEnabled_def)
  have again: "clickDownloadAlbum secondCall (fst (snd (handleDownloadAlbum createAlbumPage s))) = None"
    by (simp add: handleDownloadAlbum_states clickDownloadAlbum_def albumButtonEnabled_def)
  show ?thesis
    using empty compose handleDownloadAlbum_states [of createAlbumPage s] guard again
    by blast
qed

theorem handleDownloadAlbum_guarded_witness:
  "generatedImages exampleReady = [] \<and>
   fst (handleDownloadAlbum exampleComposer exampleReady) = [Alert noImagesNotice] \<and>
   list_all hasImage (filter slotDone (generatedImages exampleResults)) \<and>
   list_ex slotDone (generatedImages exampleResults) \<and>
   albumEntries (generatedImages exampleResults) =
     [(''Result 1'', ''img-a''), (''Result 3'', ''img-c'')] \<and>
   fst (handleDownloadAlbum exampleComposer exampleResults) =
     [ComposeCall [(''Result 1'', ''img-a''), (''Result 3'', ''img-c'')],
      Download ''img-aimg-c'' ''perfect-shot-album.jpg''] \<and>
   isDownloading (fst (snd (handleDownloadAlbum exampleComposer exampleResults))) \<and>
   isDownloading (snd (snd (handleDownloadAlbum exampleComposer exampleResults))) = False \<and>
   clickDownloadAlbum exampleComposer
     (fst (snd (handleDownloadAlbum exampleComposer exampleResults))) = None"
proof -
  have none: "generatedImages exampleReady = []"
    by (simp add: exampleReady_def initialState_def)
  have slots: "generatedImages exampleResults =
      [Some (doneSlot ''img-a''), Some (errorSlot (NonError ''timeout'')),
       Some (doneSlot ''img-c'')]"
    by (simp add: exampleResults_def)
  have wf: "\<forall>slot \<in> set (generatedImages exampleResults). slotDone slot \<longrightarrow> hasImage slot"
    unfolding slots
    by (simp add: slotDone_def hasImage_def truthy_def doneSlot_def errorSlot_def)
  have some: "\<exists>slot \<in> set (generatedImages exampleResults). slotDone slot"
    unfolding slots by (simp add: slotDone_def doneSlot_def)
  have wf': "list_all hasImage (filter slotDone (generatedImages exampleResults))"
    unfolding slots
    by (simp add: slotDone_def hasImage_def truthy_def doneSlot_def errorSlot_def)
  have some': "list_ex slotDone (generatedImages exampleResults)"
    unfolding slots by (simp add: slotDone_def doneSlot_def)
  have entries: "albumEntries (generatedImages exampleResults) =
      [(''Result 1'', ''img-a''), (''Result 3'', ''img-c'')]"
    by code_simp
  have composed: "exampleComposer (albumEntries (generatedImages exampleResults)) =
      Inr ''img-aimg-c''"
    unfolding entries by (simp add: exampleComposer_def)
  note empty_case = handleDownloadAlbum_guarded [of exampleReady exampleComposer exampleComposer]
  note done_case = handleDownloadAlbum_guarded [of exampleResults exampleComposer exampleComposer]
  have notice: "fst (handleDownloadAlbum exampleComposer exampleReady) = [Alert noImagesNotice]"
    using empty_case none by simp
  have effects: "fst (handleDownloadAlbum exampleComposer exampleResults) =
     [ComposeCall [(''Result 1'', ''img-a''), (''Result 3'', ''img-c'')],
      Download ''img-aimg-c'' ''perfect-shot-album.jpg'']"
    using done_case wf some composed entries by simp
  have during: "fst (snd (handleDownloadAlbum exampleComposer exampleResults)) =
      exampleResults\<lparr>isDownloading := True\<rparr>"
    using done_case by blast
  have finally_state: "snd (snd (handleDownloadAlbum exampleComposer exampleResults)) =
      exampleResults\<lparr>isDownloading := False\<rparr>"
    using done_case by blast
  have again: "clickDownloadAlbum exampleComposer
       (fst (snd (handleDownloadAlbum exampleComposer exampleResults))) = None"
    using done_case by blast
  have flight: "isDownloading (fst (snd (handleDownloadAlbum exampleComposer exampleResults)))"
    by (simp add: during)
  have cleared: "isDownloading (snd (snd (handleDownloadAlbum exampleComposer exampleResults))) = False"
    by (simp add: finally_state)
  show ?thesis
    using none notice wf' some' entries effects flight cleared again by blast
qed

section \<open>Crop pipeline\<close>

text \<open>
  C8. A crop confirmation on a head entry of category main leaves the inspiration
  PhotoSet as it was, and one on a head entry of category inspiration leaves the main
  PhotoSet as it was. A skip changes neither PhotoSet. A skip removes exactly the head
  entry and resets the crop selection; so does a confirmation that is carried out (the
  image is mounted, a crop has been completed and the canvas supplies a context), which
  also appends the cropped image to the PhotoSet of the entry's category.
\<close>

theorem crop_actions_frame:
  "(handleCropConfirm env s = Inr s' \<and> cropQueue s = item # rest \<and> type item = main \<longrightarrow>
      inspirationImages s' = inspirationImages s) \<and>
   (handleCropConfirm env s = Inr s' \<and> cropQueue s = item # rest \<and> type item = inspiration \<longrightarrow>
      uploadedImages s' = uploadedImages s) \<and>
   uploadedImages (handleCropCancel s) = uploadedImages s \<and>
   inspirationImages (handleCropCancel s) = inspirationImages s \<and>
   (cropQueue s = item # rest \<longrightarrow> cropQueue (handleCropCancel s) = rest) \<and>
   crop (handleCropCancel s) = None \<and>
   completedCrop (handleCropCancel s) = None \<and>
   (cropQueue s = item # rest \<and> imagePresent env \<and> completedCrop s \<noteq> None \<and>
    has2dContext env \<longrightarrow>
      (\<exists>t. handleCropConfirm env s = Inr t \<and>
           cropQueue t = rest \<and> crop t = None \<and> completedCrop t = None \<and>
           photoSet (type item) t = photoSet (type item) s @ [croppedDataUrl env]))"
proof -
  have isolate_main: "inspirationImages s' = inspirationImages s"
    if "handleCropConfirm env s = Inr s'" "cropQueue s = item # rest" "type item = main"
    using that by (auto simp add: handleCropConfirm_def split: if_splits)
  have isolate_vibe: "uploadedImages s' = uploadedImages s"
    if "handleCropConfirm env s = Inr s'" "cropQueue s = item # rest" "type item = inspiration"
    using that by (auto simp add: handleCropConfirm_def split: if_splits)
  have skip: "uploadedImages (handleCropCancel s) = uploadedImages s \<and>
      inspirationImages (handleCropCancel s) = inspirationImages s \<and>
      crop (handleCropCancel s) = None \<and> completedCrop (handleCropCancel s) = None"
    by (simp add: handleCropCancel_def)
  have skip_head: "cropQueue (handleCropCancel s) = rest" if "cropQueue s = item # rest"
    using that by (simp add: handleCropCancel_def)
  have confirm: "\<exists>t. handleCropConfirm env s = Inr t \<and>
           cropQueue t = rest \<and> crop t = None \<and> completedCrop t = None \<and>
           photoSet (type item) t = photoSet (type item) s @ [croppedDataUrl env]"
    if "cropQueue s = item # rest" "imagePresent env" "completedCrop s \<noteq> None" "has2dContext env"
    using that by (cases "type item") (auto simp add: handleCropConfirm_def photoSet_def)
  show ?thesis
    using isolate_main isolate_vibe skip skip_head confirm by blast
qed

theorem crop_actions_frame_witness:
  "cropQueue exampleCropping =
     [\<lparr>dataUrl = ''raw-1'', type = main\<rparr>, \<lparr>dataUrl = ''raw-2'', type = inspiration\<rparr>] \<and>
   imagePresent exampleEnv \<and> completedCrop exampleCropping \<noteq> None \<and> has2dContext exampleEnv \<and>
   (\<exists>t. handleCropConfirm exampleEnv exampleCropping = Inr t \<and>
        cropQueue t = [\<lparr>dataUrl = ''raw-2'', type = inspiration\<rparr>] \<and>
        crop t = None \<and> completedCrop t = None \<and>
        uploadedImages t = [''cropped''] \<and>
        inspirationImages t = [''vibe-1'']) \<and>
   cropQueue (handleCropCancel exampleCropping) =
     [\<lparr>dataUrl = ''raw-2'', type = inspiration\<rparr>] \<and>
   uploadedImages (handleCropCancel exampleCropping) = [] \<and>
   inspirationImages (handleCropCancel exampleCropping) = [''vibe-1'']"
proof -
  have queue: "cropQueue exampleCropping =
     [\<lparr>dataUrl = ''raw-1'', type = main\<rparr>, \<lparr>dataUrl = ''raw-2'', type = inspiration\<rparr>]"
    and completed: "completedCrop exampleCropping \<noteq> None"
    and sets: "uploadedImages exampleCropping = []" "inspirationImages exampleCropping = [''vibe-1'']"
    by (simp_all add: exampleCropping_def initialState_def)
  have env: "imagePresent exampleEnv" "has2dContext exampleEnv" "croppedDataUrl exampleEnv = ''cropped''"
    by (simp_all add: exampleEnv_def)
  note fact = crop_actions_frame [of exampleEnv exampleCropping _
      "\<lparr>dataUrl = ''raw-1'', type = main\<rparr>" "[\<lparr>dataUrl = ''raw-2'', type = inspiration\<rparr>]"]
  obtain t where t: "handleCropConfirm exampleEnv exampleCropping = Inr t"
    and after: "cropQueue t = [\<lparr>dataUrl = ''raw-2'', type = inspiration\<rparr>]"
      "crop t = None" "completedCrop t = None"
      "photoSet main t = photoSet main exampleCropping @ [croppedDataUrl exampleEnv]"
    using fact queue completed env(1,2) by auto
  have added: "uploadedImages t = [''cropped'']"
    using after(4) sets(1) env(3) by (simp add: photoSet_def)
  have isolated: "inspirationImages t = [''vibe-1'']"
    using crop_actions_frame [of exampleEnv exampleCropping t
      "\<lparr>dataUrl = ''raw-1'', type = main\<rparr>" "[\<lparr>dataUrl = ''raw-2'', type = inspiration\<rparr>]"]
      t queue sets(2)
    by simp
  have skipped: "cropQueue (handleCropCancel exampleCropping) =
       [\<lparr>dataUrl = ''raw-2'', type = inspiration\<rparr>] \<and>
     uploadedImages (handleCropCancel exampleCropping) = [] \<and>
     inspirationImages (handleCropCancel exampleCropping) = [''vibe-1'']"
    using fact queue sets by simp
  show ?thesis
    using queue env(1,2) completed t after(1,2,3) added isolated skipped by blast
qed

section \<open>The PhotoSet bounds\<close>

text \<open>
  C1. The claim is that no sequence of intake, crop and remove actions makes a PhotoSet
  longer than its maximum (10 subject photos, 5 vibe photos). Each intake truncates its
  batch against the current size of the PhotoSet only, without counting the entries
  that already wait in the crop queue, and a crop confirmation appends without a test.
  Evaluated from the initial state: a full batch is uploaded, one more image is pasted
  and added to the same category while the batch is still queued, and every queued
  entry is confirmed. The main PhotoSet ends with 11 images and the inspiration
  PhotoSet with 6.
\<close>

theorem photoSet_bound_exceeded:
  "length (uploadedImages (run (overfillOps main 10) initialState)) = 11 \<and>
   MAX_MAIN_IMAGES = 10 \<and>
   length (inspirationImages (run (overfillOps inspiration 5) initialState)) = 6 \<and>
   MAX_INSPIRATION_IMAGES = 5"
  by code_simp

end
